theory Spec2Isabelle
  imports Complex_Main
begin

section \<open>Configuration: data model (config.ts)\<close>

text \<open>
  \<^verbatim>\<open>export type AutomatorMode = "launch" | "connect";\<close>
\<close>

datatype AutomatorMode = Launch | Connect

text \<open>
  The three object shapes of config.ts have the same twelve keys: the object handed to
  the schema, the schema's output (\<^verbatim>\<open>ConnectionOverrides\<close>) and the resolved
  \<^verbatim>\<open>WeappConnectionConfig\<close>. One record with the key order of the interface serves
  all three; the type parameters say what a key holds (mode, strings, numbers, booleans,
  the args list).
\<close>

record ('m, 's, 'n, 'b, 'l) connection =
  mode :: 'm
  cliPath :: 's
  projectPath :: 's
  wsEndpoint :: 's
  timeout :: 'n
  port :: 'n
  account :: 's
  ticket :: 's
  trustProject :: 'b
  args :: 'l
  cwd :: 's
  autoClose :: 'b

text \<open>
  A resolved configuration: \<open>mode\<close> is mandatory, every other field holds a value or
  \<^verbatim>\<open>undefined\<close> (\<open>None\<close>). The numbers of a configuration are integers: the
  schema lets no other number through.
\<close>

type_synonym WeappConnectionConfig =
  "(AutomatorMode, string option, int option, bool option, string list option) connection"

text \<open>
  A key of a JavaScript object is absent, or present; a present key holds a value or
  \<^verbatim>\<open>undefined\<close>. Reading an absent key gives \<^verbatim>\<open>undefined\<close> too, but the
  object spread \<^verbatim>\<open>{...a, ...b}\<close> copies every own key of \<^verbatim>\<open>b\<close>, also one that
  holds \<^verbatim>\<open>undefined\<close>, so the two must be kept apart.
\<close>

datatype 'a entry = Absent | Present "'a option"

fun get :: "'a entry \<Rightarrow> 'a option" where
  "get Absent = None"
| "get (Present v) = v"

type_synonym ConnectionOverrides =
  "(AutomatorMode entry, string entry, int entry, bool entry, string list entry) connection"

text \<open>
  The values the schema is applied to. The environment gives strings or
  \<^verbatim>\<open>undefined\<close>; a caller gives strings, numbers, booleans and string arrays.
  Numbers are integers here (a fractional number, NaN or an infinity fails
  \<^verbatim>\<open>.int()\<close> like a non-positive one fails \<^verbatim>\<open>.positive()\<close>).
\<close>

datatype raw = RUndefined | RString string | RNumber int | RBoolean bool | RStrings "string list"

text \<open>The object handed to \<^verbatim>\<open>parse\<close>: a key is absent (\<open>None\<close>) or holds a raw value.\<close>

type_synonym rawObject =
  "(raw option, raw option, raw option, raw option, raw option) connection"

text \<open>
  \<^verbatim>\<open>class ConfigError extends Error {}\<close>, the error zod throws when a value does not
  fit the schema, fastmcp's \<^verbatim>\<open>UserError\<close>, and what an external call throws: an
  \<^verbatim>\<open>Error\<close> instance with its message, or any other value with its \<^verbatim>\<open>String(...)\<close>.
\<close>

datatype thrown = ErrorInstance string | OtherValue string

datatype failure = ZodError | ConfigError string | UserError string | Rethrown thrown

fun andThen :: "'e + 'a \<Rightarrow> ('a \<Rightarrow> 'e + 'b) \<Rightarrow> 'e + 'b" where
  "andThen (Inl e) f = Inl e"
| "andThen (Inr a) f = f a"

section \<open>The schema (zod)\<close>

text \<open>
  Strings are lists of code units below 256. \<^verbatim>\<open>String.prototype.trim\<close> and the
  regular expression class \<^verbatim>\<open>\s\<close> take as white space, in that range, the code
  units 9 to 13, 32 and 160.
\<close>

definition isWhiteSpace :: "char \<Rightarrow> bool" where
  "isWhiteSpace c = (of_char c \<in> {9, 10, 11, 12, 13, 32, 160 :: nat})"

definition trim :: "string \<Rightarrow> string" where
  "trim s = rev (dropWhile isWhiteSpace (rev (dropWhile isWhiteSpace s)))"

text \<open>
  \<^verbatim>\<open>value.split(/\s+/)\<close>: the pieces between maximal runs of white space; a run at
  the start or at the end leaves an empty piece there, and the empty string splits
  into one empty piece.
\<close>

fun split_piece :: "string \<Rightarrow> string \<Rightarrow> string list"
  and split_run :: "string \<Rightarrow> string list" where
  "split_piece cur [] = [cur]"
| "split_piece cur (c # cs) =
     (if isWhiteSpace c then cur # split_run cs else split_piece (cur @ [c]) cs)"
| "split_run [] = [[]]"
| "split_run (c # cs) = (if isWhiteSpace c then split_run cs else split_piece [c] cs)"

definition split_ws :: "string \<Rightarrow> string list" where
  "split_ws s = split_piece [] s"

text \<open>
  \<^verbatim>\<open>
  const argsSchema = z
    .union([z.string(), z.array(z.string()), z.undefined()])
    .transform((value) => {
      if (!value) { return undefined; }
      const list = Array.isArray(value) ? value : value.split(/\s+/);
      const normalized = list.map((item) => item.trim()).filter(Boolean);
      return normalized.length ? normalized : undefined;
    });
  \<close>
\<close>

definition normalized :: "string list \<Rightarrow> string list option" where
  "normalized list =
     (let n = filter (\<lambda>item. item \<noteq> []) (map trim list)
      in if n \<noteq> [] then Some n else None)"

fun argsSchema :: "raw \<Rightarrow> failure + string list option" where
  "argsSchema RUndefined = Inr None"
| "argsSchema (RString s) = Inr (if s = [] then None else normalized (split_ws s))"
| "argsSchema (RStrings l) = Inr (normalized l)"
| "argsSchema (RNumber n) = Inl ZodError"
| "argsSchema (RBoolean b) = Inl ZodError"

text \<open>\<^verbatim>\<open>z.enum(["launch", "connect"]).optional()\<close>\<close>

fun modeSchema :: "raw \<Rightarrow> failure + AutomatorMode option" where
  "modeSchema RUndefined = Inr None"
| "modeSchema (RString s) =
     (if s = ''launch'' then Inr (Some Launch)
      else if s = ''connect'' then Inr (Some Connect) else Inl ZodError)"
| "modeSchema (RNumber n) = Inl ZodError"
| "modeSchema (RBoolean b) = Inl ZodError"
| "modeSchema (RStrings l) = Inl ZodError"

text \<open>\<^verbatim>\<open>z.string().trim().min(1).optional()\<close>\<close>

fun stringSchema :: "raw \<Rightarrow> failure + string option" where
  "stringSchema RUndefined = Inr None"
| "stringSchema (RString s) =
     (if 1 \<le> length (trim s) then Inr (Some (trim s)) else Inl ZodError)"
| "stringSchema (RNumber n) = Inl ZodError"
| "stringSchema (RBoolean b) = Inl ZodError"
| "stringSchema (RStrings l) = Inl ZodError"

text \<open>
  \<^verbatim>\<open>z.coerce.number().int().positive().optional()\<close>. The optional wrapper answers
  \<^verbatim>\<open>undefined\<close> first; any other input goes through \<^verbatim>\<open>Number(input)\<close>.
  ECMAScript's \<^verbatim>\<open>Number\<close> on a string is not part of the repository; it is the
  parameter \<open>N\<close>, reduced to what the schema reads from it: \<open>Some n\<close> when the result
  is the integer \<open>n\<close>, \<open>None\<close> when it is NaN, infinite or fractional. An array is
  first turned into a string, its elements joined by commas.
\<close>

fun joinComma :: "string list \<Rightarrow> string" where
  "joinComma [] = []"
| "joinComma [x] = x"
| "joinComma (x # y # ys) = x @ '','' @ joinComma (y # ys)"

fun toNumber :: "(string \<Rightarrow> int option) \<Rightarrow> raw \<Rightarrow> int option" where
  "toNumber N RUndefined = None"
| "toNumber N (RString s) = N s"
| "toNumber N (RNumber n) = Some n"
| "toNumber N (RBoolean b) = Some (if b then 1 else 0)"
| "toNumber N (RStrings l) = N (joinComma l)"

definition numberSchema :: "(string \<Rightarrow> int option) \<Rightarrow> raw \<Rightarrow> failure + int option" where
  "numberSchema N r =
     (if r = RUndefined then Inr None
      else case toNumber N r of
             None \<Rightarrow> Inl ZodError
           | Some n \<Rightarrow> if 0 < n then Inr (Some n) else Inl ZodError)"

text \<open>
  \<^verbatim>\<open>z.coerce.boolean().optional()\<close>: \<^verbatim>\<open>undefined\<close> stays; any other input
  becomes \<^verbatim>\<open>Boolean(input)\<close>, its truthiness.
\<close>

fun toBoolean :: "raw \<Rightarrow> bool" where
  "toBoolean RUndefined = False"
| "toBoolean (RString s) = (s \<noteq> [])"
| "toBoolean (RNumber n) = (n \<noteq> 0)"
| "toBoolean (RBoolean b) = b"
| "toBoolean (RStrings l) = True"

definition booleanSchema :: "raw \<Rightarrow> failure + bool option" where
  "booleanSchema r = (if r = RUndefined then Inr None else Inr (Some (toBoolean r)))"

text \<open>
  One key of \<^verbatim>\<open>z.object({...})\<close>. zod parses \<^verbatim>\<open>data[key]\<close>, which is
  \<^verbatim>\<open>undefined\<close> for an absent key, and writes the key into its output when the
  parsed value is not \<^verbatim>\<open>undefined\<close> or when the key is in the input (its
  object parser records \<^verbatim>\<open>alwaysSet: key in ctx.data\<close> and its merge step tests
  \<^verbatim>\<open>typeof value.value !== "undefined" || pair.alwaysSet\<close>): a key given as
  \<^verbatim>\<open>undefined\<close> is a key of the output, holding \<^verbatim>\<open>undefined\<close>.
\<close>

fun objectKey :: "(raw \<Rightarrow> failure + 'a option) \<Rightarrow> raw option \<Rightarrow> failure + 'a entry" where
  "objectKey schema None =
     andThen (schema RUndefined) (\<lambda>v. Inr (if v = None then Absent else Present v))"
| "objectKey schema (Some r) = andThen (schema r) (\<lambda>v. Inr (Present v))"

text \<open>
  \<^verbatim>\<open>connectionOverridesSchema.parse(data)\<close>. The schema is strict: a key it does
  not list is an error; the record has no such key. Any key that fails makes the
  parse throw.
\<close>

definition connectionOverridesSchema_parse ::
  "(string \<Rightarrow> int option) \<Rightarrow> rawObject \<Rightarrow> failure + ConnectionOverrides" where
  "connectionOverridesSchema_parse N data =
     andThen (objectKey modeSchema (mode data)) (\<lambda>v_mode.
     andThen (objectKey stringSchema (cliPath data)) (\<lambda>v_cliPath.
     andThen (objectKey stringSchema (projectPath data)) (\<lambda>v_projectPath.
     andThen (objectKey stringSchema (wsEndpoint data)) (\<lambda>v_wsEndpoint.
     andThen (objectKey (numberSchema N) (timeout data)) (\<lambda>v_timeout.
     andThen (objectKey (numberSchema N) (port data)) (\<lambda>v_port.
     andThen (objectKey stringSchema (account data)) (\<lambda>v_account.
     andThen (objectKey stringSchema (ticket data)) (\<lambda>v_ticket.
     andThen (objectKey booleanSchema (trustProject data)) (\<lambda>v_trustProject.
     andThen (objectKey argsSchema (args data)) (\<lambda>v_args.
     andThen (objectKey stringSchema (cwd data)) (\<lambda>v_cwd.
     andThen (objectKey booleanSchema (autoClose data)) (\<lambda>v_autoClose.
       Inr \<lparr> mode = v_mode, cliPath = v_cliPath, projectPath = v_projectPath,
             wsEndpoint = v_wsEndpoint, timeout = v_timeout, port = v_port,
             account = v_account, ticket = v_ticket, trustProject = v_trustProject,
             args = v_args, cwd = v_cwd, autoClose = v_autoClose \<rparr>))))))))))))"

section \<open>resolveConfig (config.ts)\<close>

text \<open>The JavaScript truthiness of an optional string: defined and not empty.\<close>

fun truthy :: "string option \<Rightarrow> bool" where
  "truthy None = False"
| "truthy (Some s) = (s \<noteq> [])"

text \<open>The object \<^verbatim>\<open>{}\<close>.\<close>

definition emptyOverrides :: ConnectionOverrides where
  "emptyOverrides =
     \<lparr> mode = Absent, cliPath = Absent, projectPath = Absent, wsEndpoint = Absent,
       timeout = Absent, port = Absent, account = Absent, ticket = Absent,
       trustProject = Absent, args = Absent, cwd = Absent, autoClose = Absent \<rparr>"

text \<open>
  \<^verbatim>\<open>
  function fromPrevious(previous?: WeappConnectionConfig): ConnectionOverrides {
    const base: ConnectionOverrides = {};
    if (!previous) { return base; }
    base.mode = previous.mode;
    if (previous.cliPath) base.cliPath = previous.cliPath;
    if (previous.projectPath) base.projectPath = previous.projectPath;
    if (previous.wsEndpoint) base.wsEndpoint = previous.wsEndpoint;
    if (typeof previous.timeout === "number") base.timeout = previous.timeout;
    if (typeof previous.port === "number") base.port = previous.port;
    if (previous.account) base.account = previous.account;
    if (previous.ticket) base.ticket = previous.ticket;
    if (typeof previous.trustProject === "boolean") base.trustProject = previous.trustProject;
    if (previous.args?.length) base.args = previous.args;
    if (previous.cwd) base.cwd = previous.cwd;
    if (typeof previous.autoClose === "boolean") base.autoClose = previous.autoClose;
    return base;
  }
  \<close>
\<close>

definition ifTruthy :: "string option \<Rightarrow> string entry" where
  "ifTruthy v = (if truthy v then Present v else Absent)"

definition ifDefined :: "'a option \<Rightarrow> 'a entry" where
  "ifDefined v = (if v \<noteq> None then Present v else Absent)"

definition ifLength :: "string list option \<Rightarrow> string list entry" where
  "ifLength v = (if v \<noteq> None \<and> v \<noteq> Some [] then Present v else Absent)"

fun fromPrevious :: "WeappConnectionConfig option \<Rightarrow> ConnectionOverrides" where
  "fromPrevious None = emptyOverrides"
| "fromPrevious (Some previous) =
     \<lparr> mode = Present (Some (mode previous)),
       cliPath = ifTruthy (cliPath previous),
       projectPath = ifTruthy (projectPath previous),
       wsEndpoint = ifTruthy (wsEndpoint previous),
       timeout = ifDefined (timeout previous),
       port = ifDefined (port previous),
       account = ifTruthy (account previous),
       ticket = ifTruthy (ticket previous),
       trustProject = ifDefined (trustProject previous),
       args = ifLength (args previous),
       cwd = ifTruthy (cwd previous),
       autoClose = ifDefined (autoClose previous) \<rparr>"

text \<open>
  The environment variables \<^verbatim>\<open>resolveConfig\<close> reads from \<^verbatim>\<open>process.env\<close>: each
  is a string or \<^verbatim>\<open>undefined\<close>.
\<close>

record process_env =
  WEAPP_AUTOMATOR_MODE :: "string option"
  WECHAT_DEVTOOLS_CLI_PATH :: "string option"
  WEAPP_WS_ENDPOINT :: "string option"
  WEAPP_DEVTOOLS_TIMEOUT :: "string option"
  WEAPP_DEVTOOLS_PORT :: "string option"
  WEAPP_AUTO_ACCOUNT :: "string option"
  WEAPP_DEVTOOLS_TICKET :: "string option"
  WEAPP_TRUST_PROJECT :: "string option"
  WEAPP_DEVTOOLS_ARGS :: "string option"
  WEAPP_DEVTOOLS_CWD :: "string option"
  WEAPP_AUTOCLOSE :: "string option"

fun envValue :: "string option \<Rightarrow> raw option" where
  "envValue None = Some RUndefined"
| "envValue (Some s) = Some (RString s)"

text \<open>
  The object literal of lines 80 to 92: eleven keys, each written whether its variable
  is set or not; \<^verbatim>\<open>projectPath\<close> is not among them.
\<close>

definition envObject :: "process_env \<Rightarrow> rawObject" where
  "envObject env =
     \<lparr> mode = envValue (WEAPP_AUTOMATOR_MODE env),
       cliPath = envValue (WECHAT_DEVTOOLS_CLI_PATH env),
       projectPath = None,
       wsEndpoint = envValue (WEAPP_WS_ENDPOINT env),
       timeout = envValue (WEAPP_DEVTOOLS_TIMEOUT env),
       port = envValue (WEAPP_DEVTOOLS_PORT env),
       account = envValue (WEAPP_AUTO_ACCOUNT env),
       ticket = envValue (WEAPP_DEVTOOLS_TICKET env),
       trustProject = envValue (WEAPP_TRUST_PROJECT env),
       args = envValue (WEAPP_DEVTOOLS_ARGS env),
       cwd = envValue (WEAPP_DEVTOOLS_CWD env),
       autoClose = envValue (WEAPP_AUTOCLOSE env) \<rparr>"

text \<open>One key of \<^verbatim>\<open>{...a, ...b}\<close>: the key of \<^verbatim>\<open>b\<close> when \<^verbatim>\<open>b\<close> has it.\<close>

fun over :: "'a entry \<Rightarrow> 'a entry \<Rightarrow> 'a entry" where
  "over a Absent = a"
| "over a (Present v) = Present v"

definition spread :: "ConnectionOverrides \<Rightarrow> ConnectionOverrides \<Rightarrow> ConnectionOverrides" where
  "spread a b =
     \<lparr> mode = over (mode a) (mode b),
       cliPath = over (cliPath a) (cliPath b),
       projectPath = over (projectPath a) (projectPath b),
       wsEndpoint = over (wsEndpoint a) (wsEndpoint b),
       timeout = over (timeout a) (timeout b),
       port = over (port a) (port b),
       account = over (account a) (account b),
       ticket = over (ticket a) (ticket b),
       trustProject = over (trustProject a) (trustProject b),
       args = over (args a) (args b),
       cwd = over (cwd a) (cwd b),
       autoClose = over (autoClose a) (autoClose b) \<rparr>"

text \<open>
  \<^verbatim>\<open>
  const mode: AutomatorMode =
    merged.mode ?? (merged.wsEndpoint ? "connect" : previous?.mode ?? "launch");
  \<close>
\<close>

definition inferMode ::
  "ConnectionOverrides \<Rightarrow> WeappConnectionConfig option \<Rightarrow> AutomatorMode" where
  "inferMode merged previous =
     (case get (mode merged) of
        Some m \<Rightarrow> m
      | None \<Rightarrow>
          if truthy (get (wsEndpoint merged)) then Connect
          else (case previous of Some p \<Rightarrow> mode p | None \<Rightarrow> Launch))"

text \<open>The object literal \<^verbatim>\<open>config\<close> of lines 110 to 123.\<close>

definition configOf ::
  "ConnectionOverrides \<Rightarrow> WeappConnectionConfig option \<Rightarrow> WeappConnectionConfig" where
  "configOf merged previous =
     \<lparr> mode = inferMode merged previous,
       cliPath = get (cliPath merged),
       projectPath = get (projectPath merged),
       wsEndpoint = get (wsEndpoint merged),
       timeout = get (timeout merged),
       port = get (port merged),
       account = get (account merged),
       ticket = get (ticket merged),
       trustProject = get (trustProject merged),
       args = get (args merged),
       cwd = get (cwd merged),
       autoClose = get (autoClose merged) \<rparr>"

definition wsEndpointRequired :: string where
  "wsEndpointRequired =
     ''WeChat DevTools websocket endpoint is required. Provide connection.wsEndpoint.''"

definition projectPathRequired :: string where
  "projectPathRequired =
     ''Mini Program project path is required. Provide connection.projectPath.''"

text \<open>The checks of lines 125 to 137.\<close>

definition validate :: "WeappConnectionConfig \<Rightarrow> failure + WeappConnectionConfig" where
  "validate config =
     (if mode config = Connect then
        (if \<not> truthy (wsEndpoint config) then Inl (ConfigError wsEndpointRequired)
         else Inr config)
      else if \<not> truthy (projectPath config) then Inl (ConfigError projectPathRequired)
      else Inr config)"

text \<open>
  The three layers after the schema, in the order the source computes them: the
  environment is parsed first, then \<^verbatim>\<open>fromPrevious\<close>, then the caller's overrides
  (\<^verbatim>\<open>{}\<close> when there are none).
\<close>

definition merge :: "ConnectionOverrides \<Rightarrow> ConnectionOverrides \<Rightarrow> ConnectionOverrides
    \<Rightarrow> ConnectionOverrides" where
  "merge base envInput overrideConfig = spread (spread base envInput) overrideConfig"

text \<open>
  \<^verbatim>\<open>const overrideConfig = overrides ? connectionOverridesSchema.parse(overrides) : {};\<close>
\<close>

fun overrideConfig :: "(string \<Rightarrow> int option) \<Rightarrow> rawObject option
    \<Rightarrow> failure + ConnectionOverrides" where
  "overrideConfig N None = Inr emptyOverrides"
| "overrideConfig N (Some overrides) = connectionOverridesSchema_parse N overrides"

definition resolveConfig ::
  "(string \<Rightarrow> int option) \<Rightarrow> process_env \<Rightarrow> rawObject option
    \<Rightarrow> WeappConnectionConfig option \<Rightarrow> failure + WeappConnectionConfig" where
  "resolveConfig N env overrides previous =
     andThen (connectionOverridesSchema_parse N (envObject env)) (\<lambda>envInput.
     andThen (overrideConfig N overrides) (\<lambda>ov.
       validate (configOf (merge (fromPrevious previous) envInput ov) previous)))"

section \<open>Values of events and their serialization (weappClient.ts, tools/common.ts)\<close>

text \<open>
  The values an event can be (\<^verbatim>\<open>event: unknown\<close>). A number is a real here; the
  code never computes with one. A symbol and a function carry a label that tells them
  apart, a \<^verbatim>\<open>Date\<close> its ISO rendering, a \<^verbatim>\<open>Buffer\<close> its bytes. An object is
  the list \<^verbatim>\<open>Object.entries\<close> gives: its own enumerable keys in order.
\<close>

datatype jsvalue =
    JUndefined
  | JNull
  | JString string
  | JNumber real
  | JBoolean bool
  | JBigInt int
  | JSymbol string
  | JFunction string
  | JDate string
  | JBuffer "nat list"
  | JArray "jsvalue list"
  | JObject "(string \<times> jsvalue) list"

text \<open>The decimal digits of an array index, as \<^verbatim>\<open>Object.entries\<close> writes the key.\<close>

fun decimal :: "nat \<Rightarrow> string" where
  "decimal n =
     (if n < 10 then [''0123456789'' ! n]
      else decimal (n div 10) @ [''0123456789'' ! (n mod 10)])"

text \<open>
  \<^verbatim>\<open>Object.entries\<close> of a \<^verbatim>\<open>Buffer\<close>: one entry for each index, holding the byte
  as a number.
\<close>

definition bufferEntries :: "nat list \<Rightarrow> (string \<times> jsvalue) list" where
  "bufferEntries bytes =
     map (\<lambda>i. (decimal i, JNumber (real (bytes ! i)))) [0 ..< length bytes]"

text \<open>
  \<^verbatim>\<open>
  function toSerializable(value: unknown): SerializableValue {
    if (value === null || value === undefined) { return value as SerializableValue; }
    if (typeof value === "string" || typeof value === "number" || typeof value === "boolean") {
      return value;
    }
    if (Array.isArray(value)) {
      return value.map((item) => toSerializable(item)) as SerializableValue;
    }
    if (typeof value === "object") {
      const entries = Object.entries(value as Record<string, unknown>).map(
        ([key, val]) => [key, toSerializable(val)]
      );
      return Object.fromEntries(entries) as SerializableValue;
    }
    return String(value) as SerializableValue;
  }
  \<close>
  \<^verbatim>\<open>String\<close> is ECMAScript's, the parameter \<open>str\<close>. \<^verbatim>\<open>typeof value === "object"\<close>
  holds of a plain object, of a \<^verbatim>\<open>Date\<close> (which has no own enumerable key) and of a
  \<^verbatim>\<open>Buffer\<close>; the entries of a \<^verbatim>\<open>Buffer\<close> are numbers, which the recursive call
  returns as they are.
\<close>

primrec toSerializable :: "(jsvalue \<Rightarrow> string) \<Rightarrow> jsvalue \<Rightarrow> jsvalue" where
  "toSerializable str JUndefined = JUndefined"
| "toSerializable str JNull = JNull"
| "toSerializable str (JString s) = JString s"
| "toSerializable str (JNumber n) = JNumber n"
| "toSerializable str (JBoolean b) = JBoolean b"
| "toSerializable str (JArray items) = JArray (map (toSerializable str) items)"
| "toSerializable str (JObject entries) =
     JObject (map (map_prod id (toSerializable str)) entries)"
| "toSerializable str (JDate d) = JObject []"
| "toSerializable str (JBuffer bytes) = JObject (bufferEntries bytes)"
| "toSerializable str (JBigInt i) = JString (str (JBigInt i))"
| "toSerializable str (JSymbol d) = JString (str (JSymbol d))"
| "toSerializable str (JFunction f) = JString (str (JFunction f))"

text \<open>
  The sibling of tools/common.ts, used for the results of the tools:
  \<^verbatim>\<open>
  export function toSerializableValue(value: unknown): SerializableValue {
    if (value === null || value === undefined) { return value as SerializableValue; }
    if (typeof value === "string" || typeof value === "number" || typeof value === "boolean") {
      return value;
    }
    if (typeof value === "bigint") { return value.toString() as SerializableValue; }
    if (value instanceof Date) { return value.toISOString() as SerializableValue; }
    if (typeof Buffer !== "undefined" && Buffer.isBuffer(value)) {
      return value.toString("base64") as SerializableValue;
    }
    if (Array.isArray(value)) {
      return value.map((item) => toSerializableValue(item)) as SerializableValue;
    }
    if (isPageLike(value)) { return serializePageSummary(value); }
    if (typeof value === "object") {
      const entries = Object.entries(value as Record<string, unknown>).map(
        ([key, val]) => [key, toSerializableValue(val)]
      );
      return Object.fromEntries(entries) as SerializableValue;
    }
    return String(value) as SerializableValue;
  }
  \<close>
  \<^verbatim>\<open>isPageLike\<close> holds of an object whose \<^verbatim>\<open>path\<close> is a string;
  \<^verbatim>\<open>serializePageSummary\<close> keeps its path and, when \<^verbatim>\<open>query\<close> is not
  \<^verbatim>\<open>undefined\<close>, the serialized query. The base64 encoding of node's
  \<^verbatim>\<open>Buffer\<close> is the parameter \<open>base64\<close>. Every entry is serialized, and the
  summary of a page picks the query among the serialized entries: a value is
  \<^verbatim>\<open>undefined\<close> exactly when its serialization is.
\<close>

definition pageSummary :: "(string \<times> jsvalue) list \<Rightarrow> (string \<times> jsvalue) list
    \<Rightarrow> jsvalue" where
  "pageSummary entries serialized =
     (case map_of entries ''path'' of
        Some (JString path) \<Rightarrow>
          JObject ((''path'', JString path) #
            (case map_of serialized ''query'' of
               None \<Rightarrow> []
             | Some JUndefined \<Rightarrow> []
             | Some query \<Rightarrow> [(''query'', query)]))
      | _ \<Rightarrow> JObject serialized)"

primrec toSerializableValue ::
  "(jsvalue \<Rightarrow> string) \<Rightarrow> (nat list \<Rightarrow> string) \<Rightarrow> jsvalue \<Rightarrow> jsvalue" where
  "toSerializableValue str base64 JUndefined = JUndefined"
| "toSerializableValue str base64 JNull = JNull"
| "toSerializableValue str base64 (JString s) = JString s"
| "toSerializableValue str base64 (JNumber n) = JNumber n"
| "toSerializableValue str base64 (JBoolean b) = JBoolean b"
| "toSerializableValue str base64 (JBigInt i) = JString (str (JBigInt i))"
| "toSerializableValue str base64 (JDate d) = JString d"
| "toSerializableValue str base64 (JBuffer bytes) = JString (base64 bytes)"
| "toSerializableValue str base64 (JArray items) =
     JArray (map (toSerializableValue str base64) items)"
| "toSerializableValue str base64 (JObject entries) =
     pageSummary entries (map (map_prod id (toSerializableValue str base64)) entries)"
| "toSerializableValue str base64 (JSymbol d) = JString (str (JSymbol d))"
| "toSerializableValue str base64 (JFunction f) = JString (str (JFunction f))"

section \<open>The log buffer (weappClient.ts)\<close>

record ConsoleLogEntry =
  type :: string
  message :: string
  timestamp :: int
  data :: jsvalue

text \<open>\<^verbatim>\<open>private maxLogs = 1000;\<close>\<close>

definition maxLogs :: nat where
  "maxLogs = 1000"

text \<open>
  \<^verbatim>\<open>(event as any)?.key\<close> for the keys the listeners read (\<^verbatim>\<open>type\<close>,
  \<^verbatim>\<open>text\<close>, \<^verbatim>\<open>message\<close>): the entry of an object, \<^verbatim>\<open>undefined\<close> of any
  other value.
\<close>

fun property :: "jsvalue \<Rightarrow> string \<Rightarrow> jsvalue" where
  "property (JObject entries) key =
     (case map_of entries key of Some v \<Rightarrow> v | None \<Rightarrow> JUndefined)"
| "property v key = JUndefined"

text \<open>\<^verbatim>\<open>typeof v === "string" ? v : fallback\<close>\<close>

fun stringOr :: "jsvalue \<Rightarrow> string \<Rightarrow> string" where
  "stringOr (JString s) fallback = s"
| "stringOr v fallback = fallback"

text \<open>
  \<^verbatim>\<open>
  this.consoleLogs.push(logEntry);
  if (this.consoleLogs.length > this.maxLogs) { this.consoleLogs.shift(); }
  \<close>
\<close>

definition pushLog :: "ConsoleLogEntry \<Rightarrow> ConsoleLogEntry list \<Rightarrow> ConsoleLogEntry list" where
  "pushLog logEntry logs =
     (let pushed = logs @ [logEntry]
      in if length pushed > maxLogs then tl pushed else pushed)"

text \<open>The entries the two listeners of \<^verbatim>\<open>attachLogging\<close> build; \<open>now\<close> is \<^verbatim>\<open>Date.now()\<close>.\<close>

definition consoleEntry :: "(jsvalue \<Rightarrow> string) \<Rightarrow> int \<Rightarrow> jsvalue \<Rightarrow> ConsoleLogEntry" where
  "consoleEntry str now event =
     (let serialized = toSerializable str event
      in \<lparr> type = stringOr (property event ''type'') ''log'',
           message = stringOr (property event ''text'') (str serialized),
           timestamp = now,
           data = serialized \<rparr>)"

definition exceptionEntry :: "(jsvalue \<Rightarrow> string) \<Rightarrow> int \<Rightarrow> jsvalue \<Rightarrow> ConsoleLogEntry" where
  "exceptionEntry str now event =
     (let serialized = toSerializable str event
      in \<lparr> type = ''exception'',
           message = stringOr (property event ''message'') (str serialized),
           timestamp = now,
           data = serialized \<rparr>)"

section \<open>The session manager (weappClient.ts)\<close>

text \<open>
  A \<^verbatim>\<open>MiniProgramInstance\<close> is known by its identity. The calls the manager makes
  to its collaborators (the automator, the handle, the logger) are written to a
  journal, in order; the journal is a ghost field beside the three fields of the class.
\<close>

type_synonym MiniProgramInstance = nat

datatype call =
    AutomatorConnect "string option"
  | AutomatorLaunch WeappConnectionConfig
  | HandleClose MiniProgramInstance
  | HandleDisconnect MiniProgramInstance
  | RemoveAllListeners MiniProgramInstance
  | OnConsole MiniProgramInstance
  | OnException MiniProgramInstance
  | LogInfo string
  | LogDebug string
  | LogWarn string string
  | LogError string

record WeappAutomatorManager =
  miniProgram :: "MiniProgramInstance option"
  config :: "WeappConnectionConfig option"
  consoleLogs :: "ConsoleLogEntry list"
  journal :: "call list"

text \<open>\<^verbatim>\<open>new WeappAutomatorManager()\<close>\<close>

definition newManager :: WeappAutomatorManager where
  "newManager = \<lparr> miniProgram = None, config = None, consoleLogs = [], journal = [] \<rparr>"

text \<open>
  What the collaborators answer: \<^verbatim>\<open>automator.connect\<close> and
  \<^verbatim>\<open>automator.launch\<close> give a handle or throw; \<^verbatim>\<open>close\<close> and
  \<^verbatim>\<open>disconnect\<close> of a handle return or throw (\<open>Some\<close> what is thrown). The
  logger, \<^verbatim>\<open>on\<close> and \<^verbatim>\<open>removeAllListeners\<close> return normally.
\<close>

record externals =
  automator_connect :: "string option \<Rightarrow> thrown + MiniProgramInstance"
  automator_launch :: "WeappConnectionConfig \<Rightarrow> thrown + MiniProgramInstance"
  miniProgram_close :: "MiniProgramInstance \<Rightarrow> thrown option"
  miniProgram_disconnect :: "MiniProgramInstance \<Rightarrow> thrown option"

text \<open>\<^verbatim>\<open>error instanceof Error ? error.message : String(error)\<close>\<close>

fun messageOf :: "thrown \<Rightarrow> string" where
  "messageOf (ErrorInstance msg) = msg"
| "messageOf (OtherValue s) = s"

definition record_call :: "call list \<Rightarrow> WeappAutomatorManager \<Rightarrow> WeappAutomatorManager" where
  "record_call cs m = m\<lparr> journal := journal m @ cs \<rparr>"

text \<open>
  \<^verbatim>\<open>
  async close(log?: ToolLogger): Promise<void> {
    if (!this.miniProgram) { return; }
    try {
      if (this.config?.mode === "launch") { await this.miniProgram.close(); }
      else { this.miniProgram.disconnect(); }
      log?.debug("Closed WeChat DevTools automation session");
    } catch (error) {
      const message = error instanceof Error ? error.message : String(error);
      log?.warn("Failed to close WeChat DevTools cleanly", { message });
    } finally {
      this.miniProgram.removeAllListeners();
      this.miniProgram = undefined;
      this.config = undefined;
    }
  }
  \<close>
  The first component of the result is what \<^verbatim>\<open>close\<close> itself throws, if anything;
  \<open>logger\<close> says whether a logger was passed.
\<close>

definition closeCall :: "externals \<Rightarrow> WeappAutomatorManager \<Rightarrow> MiniProgramInstance
    \<Rightarrow> call \<times> thrown option" where
  "closeCall ext m h =
     (if map_option mode (config m) = Some Launch
      then (HandleClose h, miniProgram_close ext h)
      else (HandleDisconnect h, miniProgram_disconnect ext h))"

definition close :: "bool \<Rightarrow> externals \<Rightarrow> WeappAutomatorManager
    \<Rightarrow> thrown option \<times> WeappAutomatorManager" where
  "close logger ext m =
     (case miniProgram m of
        None \<Rightarrow> (None, m)
      | Some h \<Rightarrow>
          (let (called, tried) = closeCall ext m h;
               logged =
                 (case tried of
                    None \<Rightarrow> [LogDebug ''Closed WeChat DevTools automation session'']
                  | Some error \<Rightarrow>
                      [LogWarn ''Failed to close WeChat DevTools cleanly'' (messageOf error)])
           in (None,
               m\<lparr> miniProgram := None, config := None,
                  journal := journal m @ [called] @ (if logger then logged else [])
                               @ [RemoveAllListeners h] \<rparr>)))"

text \<open>
  \<^verbatim>\<open>
  private async connect(config) {
    if (config.mode === "connect") {
      return automator.connect({ wsEndpoint: config.wsEndpoint! });
    }
    return automator.launch({ cliPath: config.cliPath, projectPath: config.projectPath!, ... });
  }
  \<close>
  The launch options are the fields of the configuration, so the journal keeps the
  configuration.
\<close>

definition connect :: "externals \<Rightarrow> WeappConnectionConfig
    \<Rightarrow> call \<times> (thrown + MiniProgramInstance)" where
  "connect ext cfg =
     (if mode cfg = Connect
      then (AutomatorConnect (wsEndpoint cfg), automator_connect ext (wsEndpoint cfg))
      else (AutomatorLaunch cfg, automator_launch ext cfg))"

text \<open>
  \<^verbatim>\<open>
  function areArgsEqual(a?: string[], b?: string[]): boolean {
    if (!a && !b) { return true; }
    if (!a || !b) { return false; }
    if (a.length !== b.length) { return false; }
    return a.every((value, index) => value === b[index]);
  }
  \<close>
\<close>

fun areArgsEqual :: "string list option \<Rightarrow> string list option \<Rightarrow> bool" where
  "areArgsEqual None None = True"
| "areArgsEqual None (Some b) = False"
| "areArgsEqual (Some a) None = False"
| "areArgsEqual (Some a) (Some b) =
     (if length a \<noteq> length b then False
      else list_all (\<lambda>index. a ! index = b ! index) [0 ..< length a])"

text \<open>\<^verbatim>\<open>isSameConfig\<close>: strict equality of eleven fields, then \<^verbatim>\<open>areArgsEqual\<close>.\<close>

definition isSameConfig :: "WeappConnectionConfig \<Rightarrow> WeappConnectionConfig \<Rightarrow> bool" where
  "isSameConfig a b =
     (mode a = mode b \<and> cliPath a = cliPath b \<and> projectPath a = projectPath b \<and>
      wsEndpoint a = wsEndpoint b \<and> timeout a = timeout b \<and> port a = port b \<and>
      account a = account b \<and> ticket a = ticket b \<and> trustProject a = trustProject b \<and>
      cwd a = cwd b \<and> autoClose a = autoClose b \<and> areArgsEqual (args a) (args b))"

text \<open>
  \<^verbatim>\<open>const canReuse = this.miniProgram && this.config && isSameConfig(this.config, config);\<close>
\<close>

definition canReuse :: "WeappAutomatorManager \<Rightarrow> WeappConnectionConfig \<Rightarrow> bool" where
  "canReuse m cfg =
     (case (miniProgram m, config m) of
        (Some h, Some stored) \<Rightarrow> isSameConfig stored cfg
      | _ \<Rightarrow> False)"

definition establishing :: string where
  "establishing = ''Establishing WeChat DevTools automation session''"

definition failedTo :: "WeappConnectionConfig \<Rightarrow> string \<Rightarrow> string" where
  "failedTo cfg msg =
     ''Failed to '' @ (if mode cfg = Connect then ''connect to'' else ''launch'')
       @ '' WeChat DevTools: '' @ msg"

text \<open>
  Lines 67 to 91 of \<^verbatim>\<open>withMiniProgram\<close>: reuse the session, or close the stale one
  and establish a new one. The first component is what this part throws, if anything.
  \<^verbatim>\<open>
  if (!canReuse) {
    await this.close(log);
    log.info("Establishing WeChat DevTools automation session", {...});
    try {
      this.miniProgram = await this.connect(config);
      this.config = config;
      this.attachLogging(this.miniProgram, log);
    } catch (error) {
      this.miniProgram = undefined;
      this.config = undefined;
      const message = error instanceof Error ? error.message : String(error);
      throw new UserError(`Failed to ${config.mode === "connect" ? "connect to" : "launch"
        } WeChat DevTools: ${message}`);
    }
  }
  \<close>
\<close>

definition ensureSession :: "externals \<Rightarrow> WeappConnectionConfig \<Rightarrow> WeappAutomatorManager
    \<Rightarrow> failure option \<times> WeappAutomatorManager" where
  "ensureSession ext cfg m =
     (if canReuse m cfg then (None, m)
      else case close True ext m of
        (Some t, m1) \<Rightarrow> (Some (Rethrown t), m1)
      | (None, m1) \<Rightarrow>
          (let (called, outcome) = connect ext cfg;
               m2 = record_call [LogInfo establishing, called] m1
           in case outcome of
                Inr h \<Rightarrow>
                  (None,
                   record_call [OnConsole h, OnException h]
                     (m2\<lparr> miniProgram := Some h, config := Some cfg \<rparr>))
              | Inl error \<Rightarrow>
                  (Some (UserError (failedTo cfg (messageOf error))),
                   m2\<lparr> miniProgram := None, config := None \<rparr>)))"

text \<open>
  \<^verbatim>\<open>
  const activeProgram = this.miniProgram!;
  try { return await handler(activeProgram, config); }
  finally { if (config.autoClose) { await this.close(log); } }
  \<close>
  The handler is given the handle and the configuration and returns or throws. An
  exception of the \<^verbatim>\<open>finally\<close> block would replace the handler's outcome.
\<close>

fun outcomeOf :: "thrown + 'r \<Rightarrow> failure + 'r" where
  "outcomeOf (Inl t) = Inl (Rethrown t)"
| "outcomeOf (Inr v) = Inr v"

definition runHandler ::
  "externals \<Rightarrow> (MiniProgramInstance option \<Rightarrow> WeappConnectionConfig \<Rightarrow> thrown + 'r)
    \<Rightarrow> WeappConnectionConfig \<Rightarrow> WeappAutomatorManager
    \<Rightarrow> (failure + 'r) \<times> WeappAutomatorManager" where
  "runHandler ext handler cfg m =
     (let result = outcomeOf (handler (miniProgram m) cfg)
      in if autoClose cfg = Some True then
           (case close True ext m of
              (Some t, m1) \<Rightarrow> (Inl (Rethrown t), m1)
            | (None, m1) \<Rightarrow> (result, m1))
         else (result, m))"

text \<open>
  \<^verbatim>\<open>
  try { config = resolveConfig(overrides, this.config); }
  catch (error) {
    if (error instanceof ConfigError) { throw new UserError(error.message); }
    throw error;
  }
  \<close>
\<close>

fun asUserError :: "failure \<Rightarrow> failure" where
  "asUserError (ConfigError msg) = UserError msg"
| "asUserError error = error"

text \<open>
  \<^verbatim>\<open>withMiniProgram(log, { overrides, reconnect }, handler)\<close>, in the environment
  \<open>env\<close>.
\<close>

definition withMiniProgram ::
  "(string \<Rightarrow> int option) \<Rightarrow> process_env \<Rightarrow> externals \<Rightarrow> rawObject option \<Rightarrow> bool
    \<Rightarrow> (MiniProgramInstance option \<Rightarrow> WeappConnectionConfig \<Rightarrow> thrown + 'r)
    \<Rightarrow> WeappAutomatorManager \<Rightarrow> (failure + 'r) \<times> WeappAutomatorManager" where
  "withMiniProgram N env ext overrides reconnect handler m =
     (case resolveConfig N env overrides (config m) of
        Inl error \<Rightarrow> (Inl (asUserError error), m)
      | Inr cfg \<Rightarrow>
          (case (if reconnect then close True ext m else (None, m)) of
             (Some t, m1) \<Rightarrow> (Inl (Rethrown t), m1)
           | (None, m1) \<Rightarrow>
               (case ensureSession ext cfg m1 of
                  (Some error, m2) \<Rightarrow> (Inl error, m2)
                | (None, m2) \<Rightarrow> runHandler ext handler cfg m2)))"

text \<open>
  The listeners of \<^verbatim>\<open>attachLogging\<close>, run on an event observed at time \<open>now\<close>, and
  the two accessors of the buffer.
\<close>

definition onConsole :: "(jsvalue \<Rightarrow> string) \<Rightarrow> int \<Rightarrow> jsvalue \<Rightarrow> WeappAutomatorManager
    \<Rightarrow> WeappAutomatorManager" where
  "onConsole str now event m =
     record_call [LogDebug ''Mini Program console event'']
       (m\<lparr> consoleLogs := pushLog (consoleEntry str now event) (consoleLogs m) \<rparr>)"

definition onException :: "(jsvalue \<Rightarrow> string) \<Rightarrow> int \<Rightarrow> jsvalue \<Rightarrow> WeappAutomatorManager
    \<Rightarrow> WeappAutomatorManager" where
  "onException str now event m =
     record_call [LogError ''Mini Program exception'']
       (m\<lparr> consoleLogs := pushLog (exceptionEntry str now event) (consoleLogs m) \<rparr>)"

datatype observed = ConsoleEvent int jsvalue | ExceptionEvent int jsvalue

fun entryOf :: "(jsvalue \<Rightarrow> string) \<Rightarrow> observed \<Rightarrow> ConsoleLogEntry" where
  "entryOf str (ConsoleEvent now event) = consoleEntry str now event"
| "entryOf str (ExceptionEvent now event) = exceptionEntry str now event"

fun observe :: "(jsvalue \<Rightarrow> string) \<Rightarrow> WeappAutomatorManager \<Rightarrow> observed
    \<Rightarrow> WeappAutomatorManager" where
  "observe str m (ConsoleEvent now event) = onConsole str now event m"
| "observe str m (ExceptionEvent now event) = onException str now event m"

definition getConsoleLogs :: "WeappAutomatorManager \<Rightarrow> ConsoleLogEntry list" where
  "getConsoleLogs m = consoleLogs m"

definition clearConsoleLogs :: "WeappAutomatorManager \<Rightarrow> WeappAutomatorManager" where
  "clearConsoleLogs m = m\<lparr> consoleLogs := [] \<rparr>"

text \<open>The calls of the journal that reach \<^verbatim>\<open>automator.connect\<close> or \<^verbatim>\<open>automator.launch\<close>.\<close>

fun isConnectCall :: "call \<Rightarrow> bool" where
  "isConnectCall (AutomatorConnect ws) = True"
| "isConnectCall (AutomatorLaunch cfg) = True"
| "isConnectCall c = False"

definition connectCalls :: "WeappAutomatorManager \<Rightarrow> nat" where
  "connectCalls m = length (filter isConnectCall (journal m))"

section \<open>Notions of the statements\<close>

text \<open>The manager after lines 63 to 65: \<^verbatim>\<open>if (reconnect) { await this.close(log); }\<close>\<close>

definition afterReconnect :: "externals \<Rightarrow> bool \<Rightarrow> WeappAutomatorManager \<Rightarrow> WeappAutomatorManager" where
  "afterReconnect ext reconnect m = (if reconnect then snd (close True ext m) else m)"

text \<open>
  The handle and its configuration are set and cleared together; \<open>callsSince m m'\<close>
  are the calls the journal of \<open>m'\<close> has after those of \<open>m\<close>; \<open>closeLogged\<close> is
  the line \<^verbatim>\<open>close\<close> logs, a warning when the underlying call threw.
\<close>

definition paired :: "WeappAutomatorManager \<Rightarrow> bool" where
  "paired m = ((miniProgram m = None) = (config m = None))"

definition callsSince :: "WeappAutomatorManager \<Rightarrow> WeappAutomatorManager \<Rightarrow> call list" where
  "callsSince m m' = drop (length (journal m)) (journal m')"

definition closeLogged :: "thrown option \<Rightarrow> call" where
  "closeLogged tried =
     (case tried of
        None \<Rightarrow> LogDebug ''Closed WeChat DevTools automation session''
      | Some error \<Rightarrow> LogWarn ''Failed to close WeChat DevTools cleanly'' (messageOf error))"

section \<open>Concrete inputs\<close>

text \<open>
  An environment with none of the variables set, what the schema makes of its object
  (eleven keys holding \<^verbatim>\<open>undefined\<close>), the object \<^verbatim>\<open>{}\<close> as a caller
  writes it, and collaborators that succeed with handle 1, or fail to connect.
\<close>

definition unsetEnv :: process_env where
  "unsetEnv =
     \<lparr> WEAPP_AUTOMATOR_MODE = None, WECHAT_DEVTOOLS_CLI_PATH = None,
       WEAPP_WS_ENDPOINT = None, WEAPP_DEVTOOLS_TIMEOUT = None, WEAPP_DEVTOOLS_PORT = None,
       WEAPP_AUTO_ACCOUNT = None, WEAPP_DEVTOOLS_TICKET = None, WEAPP_TRUST_PROJECT = None,
       WEAPP_DEVTOOLS_ARGS = None, WEAPP_DEVTOOLS_CWD = None, WEAPP_AUTOCLOSE = None \<rparr>"

definition unsetEnvInput :: ConnectionOverrides where
  "unsetEnvInput =
     \<lparr> mode = Present None, cliPath = Present None, projectPath = Absent,
       wsEndpoint = Present None, timeout = Present None, port = Present None,
       account = Present None, ticket = Present None, trustProject = Present None,
       args = Present None, cwd = Present None, autoClose = Present None \<rparr>"

definition noKeys :: rawObject where
  "noKeys =
     \<lparr> mode = None, cliPath = None, projectPath = None, wsEndpoint = None,
       timeout = None, port = None, account = None, ticket = None,
       trustProject = None, args = None, cwd = None, autoClose = None \<rparr>"

text \<open>
  None of the concrete inputs gives a number as a string, so what stands for
  \<^verbatim>\<open>Number\<close> there is never applied; \<open>noNumber\<close> takes its place.
\<close>

definition noNumber :: "string \<Rightarrow> int option" where
  "noNumber s = None"

definition launchedConfig :: WeappConnectionConfig where
  "launchedConfig =
     \<lparr> mode = Launch, cliPath = None, projectPath = Some ''/p'', wsEndpoint = None,
       timeout = None, port = None, account = None, ticket = None,
       trustProject = None, args = None, cwd = None, autoClose = None \<rparr>"

definition succeeding :: externals where
  "succeeding =
     \<lparr> automator_connect = (\<lambda>ws. Inr 1), automator_launch = (\<lambda>cfg. Inr 1),
       miniProgram_close = (\<lambda>h. None), miniProgram_disconnect = (\<lambda>h. None) \<rparr>"

definition refusing :: externals where
  "refusing =
     \<lparr> automator_connect = (\<lambda>ws. Inl (ErrorInstance ''ECONNREFUSED'')),
       automator_launch = (\<lambda>cfg. Inl (OtherValue ''spawn failed'')),
       miniProgram_close = (\<lambda>h. Some (ErrorInstance ''closed twice'')),
       miniProgram_disconnect = (\<lambda>h. Some (ErrorInstance ''socket gone'')) \<rparr>"

definition handlerOk :: "MiniProgramInstance option \<Rightarrow> WeappConnectionConfig \<Rightarrow> thrown + nat" where
  "handlerOk h cfg = Inr 7"

definition handlerThrows :: "MiniProgramInstance option \<Rightarrow> WeappConnectionConfig \<Rightarrow> thrown + nat" where
  "handlerThrows h cfg = Inl (ErrorInstance ''tap failed'')"




definition emptyAutoClose :: process_env where
  "emptyAutoClose = unsetEnv\<lparr> WEAPP_AUTOCLOSE := Some [] \<rparr>"

definition falseStrings :: process_env where
  "falseStrings =
     unsetEnv\<lparr> WEAPP_WS_ENDPOINT := Some ''ws://x'', WEAPP_TRUST_PROJECT := Some ''false'',
               WEAPP_AUTOCLOSE := Some ''0'' \<rparr>"

definition objectString :: "jsvalue \<Rightarrow> string" where
  "objectString v = ''[object Object]''"

definition nullEvents :: "observed list" where
  "nullEvents = replicate 1001 (ConsoleEvent 0 JNull)"

definition launchedSession :: WeappAutomatorManager where
  "launchedSession =
     \<lparr> miniProgram = Some 1, config = Some launchedConfig, consoleLogs = [], journal = [] \<rparr>"




text \<open>
  Overrides that give the project path alone, with an explicit mode, and with
  \<^verbatim>\<open>autoClose\<close>; the configurations they resolve to and the session a launch
  with handle 1 leaves.
\<close>

definition projectOnly :: rawObject where
  "projectOnly = noKeys\<lparr> projectPath := Some (RString ''/p'') \<rparr>"

definition projectLaunch :: rawObject where
  "projectLaunch = projectOnly\<lparr> mode := Some (RString ''launch'') \<rparr>"

definition projectAutoClose :: rawObject where
  "projectAutoClose = projectOnly\<lparr> autoClose := Some (RBoolean True) \<rparr>"

definition launchedAutoClose :: WeappConnectionConfig where
  "launchedAutoClose = launchedConfig\<lparr> autoClose := Some True \<rparr>"

definition launchedSessionLogged :: WeappAutomatorManager where
  "launchedSessionLogged =
     launchedSession\<lparr> journal := [LogInfo establishing, AutomatorLaunch launchedConfig,
                                    OnConsole 1, OnException 1] \<rparr>"

section \<open>Properties of the schema and of resolveConfig\<close>

lemma andThen_Inr: "andThen x f = Inr y \<longleftrightarrow> (\<exists>a. x = Inr a \<and> f a = Inr y)"
  by (cases x) simp_all

lemma parse_Inr:
  assumes "connectionOverridesSchema_parse N d = Inr ov"
  shows "objectKey modeSchema (mode d) = Inr (mode ov)"
    and "objectKey stringSchema (cliPath d) = Inr (cliPath ov)"
    and "objectKey stringSchema (projectPath d) = Inr (projectPath ov)"
    and "objectKey stringSchema (wsEndpoint d) = Inr (wsEndpoint ov)"
    and "objectKey (numberSchema N) (timeout d) = Inr (timeout ov)"
    and "objectKey (numberSchema N) (port d) = Inr (port ov)"
    and "objectKey stringSchema (account d) = Inr (account ov)"
    and "objectKey stringSchema (ticket d) = Inr (ticket ov)"
    and "objectKey booleanSchema (trustProject d) = Inr (trustProject ov)"
    and "objectKey argsSchema (args d) = Inr (args ov)"
    and "objectKey stringSchema (cwd d) = Inr (cwd ov)"
    and "objectKey booleanSchema (autoClose d) = Inr (autoClose ov)"
  using assms unfolding connectionOverridesSchema_parse_def andThen_Inr by auto

lemma truthy_defined: "truthy v \<Longrightarrow> v \<noteq> None"
  by (cases v) simp_all

lemma stringSchema_clean: "stringSchema r = Inr v \<Longrightarrow> v = None \<or> truthy v"
  by (cases r) (auto split: if_splits)

lemma objectKey_string_clean:
  assumes "objectKey stringSchema k = Inr e"
  shows "get e = None \<or> truthy (get e)"
proof (cases k)
  case None
  with assms show ?thesis by auto
next
  case (Some r)
  with assms obtain v where "stringSchema r = Inr v" "e = Present v"
    by (auto simp: andThen_Inr)
  then show ?thesis using stringSchema_clean by auto
qed

lemma over_clean:
  "get a = None \<or> truthy (get a) \<Longrightarrow> get b = None \<or> truthy (get b)
    \<Longrightarrow> get (over a b) = None \<or> truthy (get (over a b))"
  by (cases b) auto

lemma overrideConfig_string_clean:
  assumes "overrideConfig N overrides = Inr ov"
  shows "get (wsEndpoint ov) = None \<or> truthy (get (wsEndpoint ov))"
    and "get (projectPath ov) = None \<or> truthy (get (projectPath ov))"
proof -
  show "get (wsEndpoint ov) = None \<or> truthy (get (wsEndpoint ov))"
  proof (cases overrides)
    case None
    with assms have "ov = emptyOverrides" by simp
    then show ?thesis by (simp add: emptyOverrides_def)
  next
    case (Some d)
    with assms have "connectionOverridesSchema_parse N d = Inr ov" by simp
    from parse_Inr(4)[OF this] show ?thesis by (rule objectKey_string_clean)
  qed
  show "get (projectPath ov) = None \<or> truthy (get (projectPath ov))"
  proof (cases overrides)
    case None
    with assms have "ov = emptyOverrides" by simp
    then show ?thesis by (simp add: emptyOverrides_def)
  next
    case (Some d)
    with assms have "connectionOverridesSchema_parse N d = Inr ov" by simp
    from parse_Inr(3)[OF this] show ?thesis by (rule objectKey_string_clean)
  qed
qed

lemma fromPrevious_clean:
  "get (wsEndpoint (fromPrevious p)) = None \<or> truthy (get (wsEndpoint (fromPrevious p)))"
  "get (projectPath (fromPrevious p)) = None \<or> truthy (get (projectPath (fromPrevious p)))"
  by (cases p; simp add: emptyOverrides_def ifTruthy_def)+

lemma merge_fields:
  "mode (merge a b c) = over (over (mode a) (mode b)) (mode c)"
  "cliPath (merge a b c) = over (over (cliPath a) (cliPath b)) (cliPath c)"
  "projectPath (merge a b c) = over (over (projectPath a) (projectPath b)) (projectPath c)"
  "wsEndpoint (merge a b c) = over (over (wsEndpoint a) (wsEndpoint b)) (wsEndpoint c)"
  "timeout (merge a b c) = over (over (timeout a) (timeout b)) (timeout c)"
  "port (merge a b c) = over (over (port a) (port b)) (port c)"
  "account (merge a b c) = over (over (account a) (account b)) (account c)"
  "ticket (merge a b c) = over (over (ticket a) (ticket b)) (ticket c)"
  "trustProject (merge a b c) = over (over (trustProject a) (trustProject b)) (trustProject c)"
  "args (merge a b c) = over (over (args a) (args b)) (args c)"
  "cwd (merge a b c) = over (over (cwd a) (cwd b)) (cwd c)"
  "autoClose (merge a b c) = over (over (autoClose a) (autoClose b)) (autoClose c)"
  by (simp_all add: merge_def spread_def)

lemma configOf_fields:
  "mode (configOf g q) = inferMode g q"
  "cliPath (configOf g q) = get (cliPath g)"
  "projectPath (configOf g q) = get (projectPath g)"
  "wsEndpoint (configOf g q) = get (wsEndpoint g)"
  "timeout (configOf g q) = get (timeout g)"
  "port (configOf g q) = get (port g)"
  "account (configOf g q) = get (account g)"
  "ticket (configOf g q) = get (ticket g)"
  "trustProject (configOf g q) = get (trustProject g)"
  "args (configOf g q) = get (args g)"
  "cwd (configOf g q) = get (cwd g)"
  "autoClose (configOf g q) = get (autoClose g)"
  by (simp_all add: configOf_def)

lemma clean_iff: "v = None \<or> truthy v \<Longrightarrow> truthy v \<longleftrightarrow> v \<noteq> None"
  by (cases v) auto

lemma merged_clean:
  assumes "connectionOverridesSchema_parse N d = Inr envInput"
      and "overrideConfig N overrides = Inr ov"
  shows "truthy (wsEndpoint (configOf (merge (fromPrevious p) envInput ov) q))
           \<longleftrightarrow> wsEndpoint (configOf (merge (fromPrevious p) envInput ov) q) \<noteq> None"
    and "truthy (projectPath (configOf (merge (fromPrevious p) envInput ov) q))
           \<longleftrightarrow> projectPath (configOf (merge (fromPrevious p) envInput ov) q) \<noteq> None"
proof -
  have e1: "get (wsEndpoint envInput) = None \<or> truthy (get (wsEndpoint envInput))"
    using parse_Inr(4)[OF assms(1)] by (rule objectKey_string_clean)
  have e2: "get (projectPath envInput) = None \<or> truthy (get (projectPath envInput))"
    using parse_Inr(3)[OF assms(1)] by (rule objectKey_string_clean)
  have "get (wsEndpoint (merge (fromPrevious p) envInput ov)) = None
          \<or> truthy (get (wsEndpoint (merge (fromPrevious p) envInput ov)))"
    unfolding merge_fields
    by (rule over_clean[OF over_clean[OF fromPrevious_clean(1) e1]
          overrideConfig_string_clean(1)[OF assms(2)]])
  then show "truthy (wsEndpoint (configOf (merge (fromPrevious p) envInput ov) q))
           \<longleftrightarrow> wsEndpoint (configOf (merge (fromPrevious p) envInput ov) q) \<noteq> None"
    unfolding configOf_fields by (rule clean_iff)
  have "get (projectPath (merge (fromPrevious p) envInput ov)) = None
          \<or> truthy (get (projectPath (merge (fromPrevious p) envInput ov)))"
    unfolding merge_fields
    by (rule over_clean[OF over_clean[OF fromPrevious_clean(2) e2]
          overrideConfig_string_clean(2)[OF assms(2)]])
  then show "truthy (projectPath (configOf (merge (fromPrevious p) envInput ov) q))
           \<longleftrightarrow> projectPath (configOf (merge (fromPrevious p) envInput ov) q) \<noteq> None"
    unfolding configOf_fields by (rule clean_iff)
qed

lemma resolveConfig_parsed:
  assumes "connectionOverridesSchema_parse N (envObject env) = Inr envInput"
      and "overrideConfig N overrides = Inr ov"
  shows "resolveConfig N env overrides previous
           = validate (configOf (merge (fromPrevious previous) envInput ov) previous)"
  using assms by (simp add: resolveConfig_def)

lemma not_Connect: "m \<noteq> Connect \<longleftrightarrow> m = Launch"
  by (cases m) simp_all

lemma validate_eq:
  assumes "truthy (wsEndpoint c) \<longleftrightarrow> wsEndpoint c \<noteq> None"
      and "truthy (projectPath c) \<longleftrightarrow> projectPath c \<noteq> None"
  shows "validate c =
     (if mode c = Connect \<and> wsEndpoint c = None then Inl (ConfigError wsEndpointRequired)
      else if mode c = Launch \<and> projectPath c = None then Inl (ConfigError projectPathRequired)
      else Inr c)"
  using assms by (cases "mode c") (simp_all add: validate_def)

lemma validate_Inr:
  "validate c = Inr c' \<Longrightarrow> c' = c \<and> (mode c = Connect \<longrightarrow> truthy (wsEndpoint c))
     \<and> (mode c = Launch \<longrightarrow> truthy (projectPath c))"
  by (cases "mode c") (simp_all add: validate_def split: if_splits)

text \<open>
  C3. Once the two schema layers have parsed, \<^verbatim>\<open>resolveConfig\<close> is decided by the
  merged configuration and its inferred mode: mode connect with no \<^verbatim>\<open>wsEndpoint\<close>
  fails with the \<^verbatim>\<open>ConfigError\<close> whose message ends in
  \<^verbatim>\<open>Provide connection.wsEndpoint.\<close>; mode launch with no \<^verbatim>\<open>projectPath\<close>
  fails with the one that ends in \<^verbatim>\<open>Provide connection.projectPath.\<close>; otherwise
  the configuration is returned, and a returned configuration has a
  \<^verbatim>\<open>wsEndpoint\<close> in mode connect and a \<^verbatim>\<open>projectPath\<close> in mode launch.
\<close>

theorem resolveConfig_validation:
  assumes "connectionOverridesSchema_parse N (envObject env) = Inr envInput"
      and "overrideConfig N overrides = Inr ov"
  shows "let cfg = configOf (merge (fromPrevious previous) envInput ov) previous in
           resolveConfig N env overrides previous =
             (if mode cfg = Connect \<and> wsEndpoint cfg = None then
                Inl (ConfigError
                  (''WeChat DevTools websocket endpoint is required. ''
                    @ ''Provide connection.wsEndpoint.''))
              else if mode cfg = Launch \<and> projectPath cfg = None then
                Inl (ConfigError
                  (''Mini Program project path is required. ''
                    @ ''Provide connection.projectPath.''))
              else Inr cfg)
           \<and> (\<forall>c. resolveConfig N env overrides previous = Inr c \<longrightarrow>
                 c = cfg \<and> (mode c = Connect \<longrightarrow> wsEndpoint c \<noteq> None)
                       \<and> (mode c = Launch \<longrightarrow> projectPath c \<noteq> None))"
proof -
  define cfg where "cfg = configOf (merge (fromPrevious previous) envInput ov) previous"
  have r: "resolveConfig N env overrides previous = validate cfg"
    unfolding cfg_def by (rule resolveConfig_parsed[OF assms])
  have t: "truthy (wsEndpoint cfg) \<longleftrightarrow> wsEndpoint cfg \<noteq> None"
          "truthy (projectPath cfg) \<longleftrightarrow> projectPath cfg \<noteq> None"
    unfolding cfg_def by (rule merged_clean[OF assms])+
  have m1: "wsEndpointRequired = ''WeChat DevTools websocket endpoint is required. ''
                    @ ''Provide connection.wsEndpoint.''"
    by (simp add: wsEndpointRequired_def)
  have m2: "projectPathRequired = ''Mini Program project path is required. ''
                    @ ''Provide connection.projectPath.''"
    by (simp add: projectPathRequired_def)
  have a: "resolveConfig N env overrides previous =
             (if mode cfg = Connect \<and> wsEndpoint cfg = None then
                Inl (ConfigError
                  (''WeChat DevTools websocket endpoint is required. ''
                    @ ''Provide connection.wsEndpoint.''))
              else if mode cfg = Launch \<and> projectPath cfg = None then
                Inl (ConfigError
                  (''Mini Program project path is required. ''
                    @ ''Provide connection.projectPath.''))
              else Inr cfg)"
    unfolding r validate_eq[OF t] m1 m2 ..
  have b: "\<forall>c. resolveConfig N env overrides previous = Inr c \<longrightarrow>
                 c = cfg \<and> (mode c = Connect \<longrightarrow> wsEndpoint c \<noteq> None)
                       \<and> (mode c = Launch \<longrightarrow> projectPath c \<noteq> None)"
    unfolding r using validate_Inr[of cfg] t by blast
  show ?thesis unfolding Let_def cfg_def[symmetric] using a b by (rule conjI)
qed

lemma parse_unsetEnv: "connectionOverridesSchema_parse N (envObject unsetEnv) = Inr unsetEnvInput"
  by (simp add: connectionOverridesSchema_parse_def envObject_def unsetEnv_def unsetEnvInput_def
      numberSchema_def booleanSchema_def)

theorem resolveConfig_validation_witness:
  "connectionOverridesSchema_parse noNumber (envObject unsetEnv) = Inr unsetEnvInput
   \<and> overrideConfig noNumber None = Inr emptyOverrides
   \<and> resolveConfig noNumber unsetEnv None None
       = Inl (ConfigError ''Mini Program project path is required. Provide connection.projectPath.'')"
proof -
  have e: "connectionOverridesSchema_parse noNumber (envObject unsetEnv) = Inr unsetEnvInput"
    by (rule parse_unsetEnv)
  have o: "overrideConfig noNumber None = Inr emptyOverrides" by simp
  have "resolveConfig noNumber unsetEnv None None
       = Inl (ConfigError ''Mini Program project path is required. Provide connection.projectPath.'')"
    using resolveConfig_validation[OF e o, of None]
    by (simp add: Let_def configOf_fields merge_fields unsetEnvInput_def emptyOverrides_def
        inferMode_def)
  with e o show ?thesis by blast
qed

lemma objectKey_envValue: "objectKey schema (envValue x) = Inr e \<Longrightarrow> \<exists>v. e = Present v"
  by (cases x) (auto simp: andThen_Inr)

lemma over_Present: "\<exists>v. e = Present v \<Longrightarrow> over a e = e"
  by auto

lemma envInput_keys:
  assumes "connectionOverridesSchema_parse N (envObject env) = Inr e"
  shows "over a1 (mode e) = mode e"
    and "over a2 (cliPath e) = cliPath e"
    and "projectPath e = Absent"
    and "over a2 (wsEndpoint e) = wsEndpoint e"
    and "over a3 (timeout e) = timeout e"
    and "over a3 (port e) = port e"
    and "over a2 (account e) = account e"
    and "over a2 (ticket e) = ticket e"
    and "over a4 (trustProject e) = trustProject e"
    and "over a5 (args e) = args e"
    and "over a2 (cwd e) = cwd e"
    and "over a4 (autoClose e) = autoClose e"
proof -
  show "over a1 (mode e) = mode e"
    using parse_Inr(1)[OF assms] by (intro over_Present objectKey_envValue) (simp add: envObject_def)
  show "over a2 (cliPath e) = cliPath e"
    using parse_Inr(2)[OF assms] by (intro over_Present objectKey_envValue) (simp add: envObject_def)
  show "projectPath e = Absent"
    using parse_Inr(3)[OF assms] by (simp add: envObject_def)
  show "over a2 (wsEndpoint e) = wsEndpoint e"
    using parse_Inr(4)[OF assms] by (intro over_Present objectKey_envValue) (simp add: envObject_def)
  show "over a3 (timeout e) = timeout e"
    using parse_Inr(5)[OF assms] by (intro over_Present objectKey_envValue) (simp add: envObject_def)
  show "over a3 (port e) = port e"
    using parse_Inr(6)[OF assms] by (intro over_Present objectKey_envValue) (simp add: envObject_def)
  show "over a2 (account e) = account e"
    using parse_Inr(7)[OF assms] by (intro over_Present objectKey_envValue) (simp add: envObject_def)
  show "over a2 (ticket e) = ticket e"
    using parse_Inr(8)[OF assms] by (intro over_Present objectKey_envValue) (simp add: envObject_def)
  show "over a4 (trustProject e) = trustProject e"
    using parse_Inr(9)[OF assms] by (intro over_Present objectKey_envValue) (simp add: envObject_def)
  show "over a5 (args e) = args e"
    using parse_Inr(10)[OF assms] by (intro over_Present objectKey_envValue) (simp add: envObject_def)
  show "over a2 (cwd e) = cwd e"
    using parse_Inr(11)[OF assms] by (intro over_Present objectKey_envValue) (simp add: envObject_def)
  show "over a4 (autoClose e) = autoClose e"
    using parse_Inr(12)[OF assms] by (intro over_Present objectKey_envValue) (simp add: envObject_def)
qed

lemma trim_p: "trim '' /p '' = ''/p''" "trim ''ws://x'' = ''ws://x''"
  by (simp_all add: trim_def isWhiteSpace_def)






lemma envInput_boolean:
  assumes "connectionOverridesSchema_parse N (envObject env) = Inr envInput"
  shows "trustProject envInput = Present (map_option (\<lambda>s. s \<noteq> []) (WEAPP_TRUST_PROJECT env))"
    and "autoClose envInput = Present (map_option (\<lambda>s. s \<noteq> []) (WEAPP_AUTOCLOSE env))"
proof -
  have "objectKey booleanSchema (envValue (WEAPP_TRUST_PROJECT env)) = Inr (trustProject envInput)"
    using parse_Inr(9)[OF assms] by (simp add: envObject_def)
  then show "trustProject envInput = Present (map_option (\<lambda>s. s \<noteq> []) (WEAPP_TRUST_PROJECT env))"
    by (cases "WEAPP_TRUST_PROJECT env") (simp_all add: booleanSchema_def)
  have "objectKey booleanSchema (envValue (WEAPP_AUTOCLOSE env)) = Inr (autoClose envInput)"
    using parse_Inr(12)[OF assms] by (simp add: envObject_def)
  then show "autoClose envInput = Present (map_option (\<lambda>s. s \<noteq> []) (WEAPP_AUTOCLOSE env))"
    by (cases "WEAPP_AUTOCLOSE env") (simp_all add: booleanSchema_def)
qed

lemma resolveConfig_Inr:
  assumes "resolveConfig N env overrides previous = Inr cfg"
  obtains envInput ov where
    "connectionOverridesSchema_parse N (envObject env) = Inr envInput"
    "overrideConfig N overrides = Inr ov"
    "cfg = configOf (merge (fromPrevious previous) envInput ov) previous"
    "validate cfg = Inr cfg"
proof -
  from assms obtain envInput ov where
    e: "connectionOverridesSchema_parse N (envObject env) = Inr envInput" and
    o: "overrideConfig N overrides = Inr ov" and
    v: "validate (configOf (merge (fromPrevious previous) envInput ov) previous) = Inr cfg"
    unfolding resolveConfig_def andThen_Inr by blast
  from v have "cfg = configOf (merge (fromPrevious previous) envInput ov) previous"
    using validate_Inr by blast
  with e o v that show thesis by simp
qed

text \<open>
  C10. For \<^verbatim>\<open>trustProject\<close> and \<^verbatim>\<open>autoClose\<close> the schema turns a string into
  its JavaScript truthiness: every string that is not empty, \<^verbatim>\<open>"false"\<close> and
  \<^verbatim>\<open>"0"\<close> among them, gives true, the empty string gives false, and only
  \<^verbatim>\<open>undefined\<close> leaves the field unset. With no overrides, the two fields of the
  resolved configuration are the truthiness of \<^verbatim>\<open>WEAPP_TRUST_PROJECT\<close> and
  \<^verbatim>\<open>WEAPP_AUTOCLOSE\<close>, unset when the variable is.
\<close>

theorem boolean_coercion:
  "booleanSchema (RString s) = Inr (Some (s \<noteq> []))
   \<and> (booleanSchema r = Inr None \<longleftrightarrow> r = RUndefined)
   \<and> (resolveConfig N env None previous = Inr cfg \<longrightarrow>
        trustProject cfg = map_option (\<lambda>s. s \<noteq> []) (WEAPP_TRUST_PROJECT env)
        \<and> autoClose cfg = map_option (\<lambda>s. s \<noteq> []) (WEAPP_AUTOCLOSE env))"
proof (intro conjI impI)
  show "booleanSchema (RString s) = Inr (Some (s \<noteq> []))"
    by (simp add: booleanSchema_def)
  show "booleanSchema r = Inr None \<longleftrightarrow> r = RUndefined"
    by (simp add: booleanSchema_def)
next
  assume "resolveConfig N env None previous = Inr cfg"
  then obtain envInput ov where
    e: "connectionOverridesSchema_parse N (envObject env) = Inr envInput" and
    o: "overrideConfig N None = Inr ov" and
    c: "cfg = configOf (merge (fromPrevious previous) envInput ov) previous"
    by (rule resolveConfig_Inr)
  from o have ov: "ov = emptyOverrides" by simp
  show "trustProject cfg = map_option (\<lambda>s. s \<noteq> []) (WEAPP_TRUST_PROJECT env)"
    unfolding c configOf_fields merge_fields ov envInput_boolean(1)[OF e]
    by (simp add: emptyOverrides_def)
  show "autoClose cfg = map_option (\<lambda>s. s \<noteq> []) (WEAPP_AUTOCLOSE env)"
    unfolding c configOf_fields merge_fields ov envInput_boolean(2)[OF e]
    by (simp add: emptyOverrides_def)
qed

lemma resolve_falseStrings:
  "resolveConfig noNumber falseStrings None None
     = Inr (launchedConfig\<lparr> mode := Connect, projectPath := None, wsEndpoint := Some ''ws://x'',
              trustProject := Some True, autoClose := Some True \<rparr>)"
  by (simp add: resolveConfig_def connectionOverridesSchema_parse_def envObject_def
      falseStrings_def unsetEnv_def numberSchema_def booleanSchema_def trim_p
      validate_def configOf_def merge_def spread_def emptyOverrides_def inferMode_def
      launchedConfig_def)

theorem boolean_coercion_witness:
  "resolveConfig noNumber falseStrings None None
     = Inr (launchedConfig\<lparr> mode := Connect, projectPath := None, wsEndpoint := Some ''ws://x'',
              trustProject := Some True, autoClose := Some True \<rparr>)
   \<and> WEAPP_TRUST_PROJECT falseStrings = Some ''false''
   \<and> WEAPP_AUTOCLOSE falseStrings = Some ''0''
   \<and> booleanSchema (RString ''false'') = Inr (Some True)"
  using boolean_coercion[of "''false''" RUndefined noNumber falseStrings None
      "launchedConfig\<lparr> mode := Connect, projectPath := None, wsEndpoint := Some ''ws://x'',
              trustProject := Some True, autoClose := Some True \<rparr>"]
    resolve_falseStrings
  by (simp add: falseStrings_def unsetEnv_def)

text \<open>
  A variable set to the empty string does set the field to false.
\<close>

theorem boolean_empty_string_counterexample:
  "booleanSchema (RString []) = Inr (Some False)
   \<and> resolveConfig noNumber emptyAutoClose None (Some launchedConfig)
       = Inr (launchedConfig\<lparr> autoClose := Some False \<rparr>)"
  by (simp add: resolveConfig_def connectionOverridesSchema_parse_def envObject_def
      emptyAutoClose_def unsetEnv_def numberSchema_def booleanSchema_def
      validate_def configOf_def merge_def spread_def emptyOverrides_def inferMode_def
      launchedConfig_def ifTruthy_def ifDefined_def ifLength_def)

text \<open>
  C1. A field other than \<^verbatim>\<open>projectPath\<close> that only the previous configuration
  defines is not kept: with no variable set and no overrides, the \<^verbatim>\<open>cliPath\<close> of
  the previous configuration is gone from the result, while its \<^verbatim>\<open>projectPath\<close>
  stays. The object parsed for the environment has the key \<^verbatim>\<open>cliPath\<close>, holding
  \<^verbatim>\<open>undefined\<close>; the schema keeps the key and the spread writes it over the
  value \<^verbatim>\<open>fromPrevious\<close> copied.
\<close>

theorem previous_cliPath_not_kept:
  "resolveConfig N unsetEnv None (Some (launchedConfig\<lparr> cliPath := Some ''/cli'' \<rparr>))
     = Inr launchedConfig"
  by (simp add: resolveConfig_def parse_unsetEnv
      validate_def configOf_def merge_def spread_def emptyOverrides_def inferMode_def
      launchedConfig_def unsetEnvInput_def ifTruthy_def ifDefined_def ifLength_def)

section \<open>Properties of the log buffer\<close>

lemma observe_logs:
  "consoleLogs (observe str m e) = pushLog (entryOf str e) (consoleLogs m)"
  by (cases e) (simp_all add: onConsole_def onException_def record_call_def)

lemma tl_drop_one: "tl ys = drop 1 ys"
  by (cases ys) simp_all

lemma pushLog_drop:
  assumes "length logs \<le> maxLogs"
  shows "pushLog x logs = drop (Suc (length logs) - maxLogs) (logs @ [x])"
proof (cases "length logs = maxLogs")
  case True
  then have one: "Suc (length logs) - maxLogs = 1" by simp
  from True have "maxLogs < length (logs @ [x])" by simp
  then have "pushLog x logs = tl (logs @ [x])"
    unfolding pushLog_def Let_def by (rule if_P)
  also have "\<dots> = drop 1 (logs @ [x])"
    by (rule tl_drop_one)
  finally show ?thesis unfolding one .
next
  case False
  with assms have "length logs < maxLogs" by simp
  then show ?thesis by (simp add: pushLog_def)
qed

lemma keep_last_step:
  fixes M :: nat
  assumes "0 < M"
  shows "drop (Suc (length (drop (length xs - M) xs)) - M) (drop (length xs - M) xs @ [x])
           = drop (length (xs @ [x]) - M) (xs @ [x])"
proof (cases "length xs < M")
  case True
  then show ?thesis by simp
next
  case False
  then have le: "M \<le> length xs" by simp
  then have len: "length (drop (length xs - M) xs) = M" by simp
  have "drop (Suc (length (drop (length xs - M) xs)) - M) (drop (length xs - M) xs @ [x])
          = drop 1 (drop (length xs - M) (xs @ [x]))"
    unfolding len using le by simp
  also have "\<dots> = drop (length (xs @ [x]) - M) (xs @ [x])"
    using le assms by (simp add: Suc_diff_le)
  finally show ?thesis .
qed

lemma observed_logs:
  assumes "length (consoleLogs m) \<le> maxLogs"
  shows "consoleLogs (foldl (observe str) m events)
           = drop (length (consoleLogs m @ map (entryOf str) events) - maxLogs)
               (consoleLogs m @ map (entryOf str) events)"
proof (induction events rule: rev_induct)
  case Nil
  with assms show ?case by simp
next
  case (snoc e events)
  define all where "all = consoleLogs m @ map (entryOf str) events"
  have kept: "consoleLogs (foldl (observe str) m events) = drop (length all - maxLogs) all"
    unfolding all_def by (rule snoc.IH)
  have short: "length (drop (length all - maxLogs) all) \<le> maxLogs"
    by simp
  have "consoleLogs (foldl (observe str) m (events @ [e]))
          = pushLog (entryOf str e) (drop (length all - maxLogs) all)"
    by (simp add: observe_logs kept)
  also have "\<dots> = drop (Suc (length (drop (length all - maxLogs) all)) - maxLogs)
                      (drop (length all - maxLogs) all @ [entryOf str e])"
    by (rule pushLog_drop[OF short])
  also have "\<dots> = drop (length (all @ [entryOf str e]) - maxLogs) (all @ [entryOf str e])"
    by (rule keep_last_step) (simp add: maxLogs_def)
  finally show ?case by (simp add: all_def)
qed

text \<open>
  C8. The log buffer is a bounded queue of capacity 1000. From a buffer within the
  capacity, after any sequence of console and exception events the buffer holds the
  last 1000 of the old entries followed by the new ones, in arrival order, and never
  more than 1000; 1001 events into an empty buffer leave exactly 1000 entries, those
  of all events but the first.
\<close>

theorem log_buffer_fifo:
  assumes "length (consoleLogs m) \<le> maxLogs"
  shows "consoleLogs (foldl (observe str) m events)
           = drop (length (consoleLogs m @ map (entryOf str) events) - 1000)
               (consoleLogs m @ map (entryOf str) events)
         \<and> length (consoleLogs (foldl (observe str) m events)) \<le> 1000
         \<and> (consoleLogs m = [] \<and> length events = 1001 \<longrightarrow>
              consoleLogs (foldl (observe str) m events) = map (entryOf str) (tl events)
              \<and> length (consoleLogs (foldl (observe str) m events)) = 1000)"
proof -
  have a: "consoleLogs (foldl (observe str) m events)
           = drop (length (consoleLogs m @ map (entryOf str) events) - 1000)
               (consoleLogs m @ map (entryOf str) events)"
    using observed_logs[OF assms, of str events] by (simp add: maxLogs_def)
  have b: "length (consoleLogs (foldl (observe str) m events)) \<le> 1000"
    unfolding a by simp
  have c: "consoleLogs m = [] \<and> length events = 1001 \<longrightarrow>
              consoleLogs (foldl (observe str) m events) = map (entryOf str) (tl events)
              \<and> length (consoleLogs (foldl (observe str) m events)) = 1000"
  proof
    assume h: "consoleLogs m = [] \<and> length events = 1001"
    then have "consoleLogs (foldl (observe str) m events) = drop 1 (map (entryOf str) events)"
      unfolding a by simp
    then have "consoleLogs (foldl (observe str) m events) = map (entryOf str) (tl events)"
      by (simp add: drop_Suc map_tl)
    with h show "consoleLogs (foldl (observe str) m events) = map (entryOf str) (tl events)
              \<and> length (consoleLogs (foldl (observe str) m events)) = 1000"
      by simp
  qed
  from a b c show ?thesis by blast
qed

theorem log_buffer_fifo_witness:
  "length (consoleLogs newManager) \<le> maxLogs
   \<and> consoleLogs newManager = [] \<and> length nullEvents = 1001
   \<and> consoleLogs (foldl (observe objectString) newManager nullEvents)
        = map (entryOf objectString) (tl nullEvents)
   \<and> length (consoleLogs (foldl (observe objectString) newManager nullEvents)) = 1000"
proof -
  have h: "length (consoleLogs newManager) \<le> maxLogs"
    by (simp add: newManager_def)
  have e: "consoleLogs newManager = [] \<and> length nullEvents = 1001"
    by (simp add: newManager_def nullEvents_def)
  from log_buffer_fifo[OF h, of objectString nullEvents] e h show ?thesis
    by blast
qed

section \<open>Properties of the serialization\<close>

text \<open>
  C9. The serializer of the log listeners has no case for binary payloads: a
  \<^verbatim>\<open>Buffer\<close> of the bytes 104 and 105 becomes the object of its indices and bytes,
  not a text, and a \<^verbatim>\<open>Date\<close> becomes the empty object. The serializer of the
  tools, \<^verbatim>\<open>toSerializableValue\<close>, gives the base64 text and the ISO text.
\<close>

theorem log_serialization_of_buffer:
  "toSerializable str (JBuffer [104, 105]) = JObject [(''0'', JNumber 104), (''1'', JNumber 105)]
   \<and> toSerializableValue str base64 (JBuffer [104, 105]) = JString (base64 [104, 105])
   \<and> toSerializable str (JDate d) = JObject []
   \<and> toSerializableValue str base64 (JDate d) = JString d"
  by (simp add: bufferEntries_def upt_rec)

section \<open>Properties of the session manager\<close>

lemma close_None: "miniProgram m = None \<Longrightarrow> close logger ext m = (None, m)"
  by (simp add: close_def)

lemma close_Some:
  assumes "miniProgram m = Some h"
  shows "close logger ext m =
     (None, m\<lparr> miniProgram := None, config := None,
               journal := journal m @ [fst (closeCall ext m h)]
                 @ (if logger then [closeLogged (snd (closeCall ext m h))] else [])
                 @ [RemoveAllListeners h] \<rparr>)"
  using assms
  by (simp add: close_def closeLogged_def split: prod.splits option.splits)

lemma close_returns: "fst (close logger ext m) = None"
  by (cases "miniProgram m") (simp_all add: close_None close_Some)

lemma close_miniProgram: "miniProgram (snd (close logger ext m)) = None"
  by (cases "miniProgram m") (simp_all add: close_None close_Some)

lemma close_config: "paired m \<Longrightarrow> config (snd (close logger ext m)) = None"
  by (cases "miniProgram m") (simp_all add: close_None close_Some paired_def)

lemma close_consoleLogs: "consoleLogs (snd (close logger ext m)) = consoleLogs m"
  by (cases "miniProgram m") (simp_all add: close_None close_Some)

lemma isConnectCall_closeCall: "\<not> isConnectCall (fst (closeCall ext m h))"
  by (simp add: closeCall_def)

lemma isConnectCall_closeLogged: "\<not> isConnectCall (closeLogged t)"
  by (cases t) (simp_all add: closeLogged_def)

lemma close_connectCalls: "connectCalls (snd (close logger ext m)) = connectCalls m"
  by (cases "miniProgram m")
    (simp_all add: close_None close_Some connectCalls_def isConnectCall_closeCall
      isConnectCall_closeLogged)

lemma close_twice:
  "close logger' ext' (snd (close logger ext m)) = (None, snd (close logger ext m))"
  by (rule close_None) (rule close_miniProgram)

text \<open>
  C6. \<^verbatim>\<open>close\<close> never throws, whatever the underlying \<^verbatim>\<open>close\<close> or
  \<^verbatim>\<open>disconnect\<close> does, and leaves no handle; from a state where handle and
  configuration are paired it leaves no configuration either. With an active handle
  it makes the underlying call, logs (a warning when the call threw) and removes the
  listeners of the handle; with no handle it changes nothing, so a second call in a row
  returns normally and changes nothing.
\<close>

theorem close_never_raises:
  "fst (close logger ext m) = None
   \<and> miniProgram (snd (close logger ext m)) = None
   \<and> (paired m \<longrightarrow> config (snd (close logger ext m)) = None)
   \<and> consoleLogs (snd (close logger ext m)) = consoleLogs m
   \<and> (\<forall>h. miniProgram m = Some h \<longrightarrow>
        callsSince m (snd (close logger ext m))
          = [fst (closeCall ext m h)]
            @ (if logger then [closeLogged (snd (closeCall ext m h))] else [])
            @ [RemoveAllListeners h])
   \<and> (miniProgram m = None \<longrightarrow> close logger ext m = (None, m))
   \<and> close logger' ext' (snd (close logger ext m)) = (None, snd (close logger ext m))"
proof (intro conjI allI impI)
  show "fst (close logger ext m) = None" by (rule close_returns)
  show "miniProgram (snd (close logger ext m)) = None" by (rule close_miniProgram)
  show "consoleLogs (snd (close logger ext m)) = consoleLogs m" by (rule close_consoleLogs)
  show "close logger' ext' (snd (close logger ext m)) = (None, snd (close logger ext m))"
    by (rule close_twice)
next
  assume "paired m"
  then show "config (snd (close logger ext m)) = None" by (rule close_config)
next
  fix h assume "miniProgram m = Some h"
  then show "callsSince m (snd (close logger ext m))
          = [fst (closeCall ext m h)]
            @ (if logger then [closeLogged (snd (closeCall ext m h))] else [])
            @ [RemoveAllListeners h]"
    by (simp add: close_Some callsSince_def)
next
  assume "miniProgram m = None"
  then show "close logger ext m = (None, m)" by (rule close_None)
qed

theorem close_never_raises_witness:
  "paired launchedSession \<and> miniProgram launchedSession = Some 1
   \<and> close True refusing launchedSession
       = (None, \<lparr> miniProgram = None, config = None, consoleLogs = [],
                  journal = [HandleClose 1,
                             LogWarn ''Failed to close WeChat DevTools cleanly'' ''closed twice'',
                             RemoveAllListeners 1] \<rparr>)
   \<and> close True refusing newManager = (None, newManager)"
  using close_never_raises[of True refusing launchedSession True refusing]
    close_never_raises[of True refusing newManager True refusing]
  by (simp add: paired_def launchedSession_def close_def closeCall_def launchedConfig_def
      refusing_def newManager_def)

lemma areArgsEqual_iff: "areArgsEqual a b \<longleftrightarrow> a = b"
proof (cases a; cases b)
  fix xs ys assume ab: "a = Some xs" "b = Some ys"
  show ?thesis unfolding ab by (auto simp: list_all_iff intro: nth_equalityI)
qed simp_all

lemma isSameConfig_iff: "isSameConfig a b \<longleftrightarrow> a = b"
proof
  assume "isSameConfig a b"
  then show "a = b"
    unfolding isSameConfig_def areArgsEqual_iff by (intro connection.equality) simp_all
next
  assume "a = b"
  then show "isSameConfig a b"
    by (simp add: isSameConfig_def areArgsEqual_iff)
qed

lemma canReuse_iff:
  "canReuse m cfg \<longleftrightarrow> miniProgram m \<noteq> None \<and> config m = Some cfg"
  by (auto simp: canReuse_def isSameConfig_iff split: option.splits)

lemma isConnectCall_connect: "isConnectCall (fst (connect ext cfg))"
  by (simp add: connect_def)

lemma ensureSession_reuse:
  "canReuse m cfg \<Longrightarrow> ensureSession ext cfg m = (None, m)"
  by (simp add: ensureSession_def)

lemma ensureSession_connected:
  assumes "\<not> canReuse m cfg" and "snd (connect ext cfg) = Inr h"
  shows "ensureSession ext cfg m =
     (None, (snd (close True ext m))
        \<lparr> miniProgram := Some h, config := Some cfg,
          journal := journal (snd (close True ext m))
            @ [LogInfo establishing, fst (connect ext cfg), OnConsole h, OnException h] \<rparr>)"
  using assms
  by (cases "connect ext cfg"; cases "close True ext m")
     (use close_returns[of True ext m] in \<open>simp add: ensureSession_def record_call_def\<close>)

lemma ensureSession_failed:
  assumes "\<not> canReuse m cfg" and "snd (connect ext cfg) = Inl error"
  shows "ensureSession ext cfg m =
     (Some (UserError (failedTo cfg (messageOf error))),
      (snd (close True ext m))
        \<lparr> miniProgram := None, config := None,
          journal := journal (snd (close True ext m))
            @ [LogInfo establishing, fst (connect ext cfg)] \<rparr>)"
  using assms
  by (cases "connect ext cfg"; cases "close True ext m")
     (use close_returns[of True ext m] in \<open>simp add: ensureSession_def record_call_def\<close>)

lemma ensureSession_cases:
  obtains (reuse) "canReuse m cfg" "ensureSession ext cfg m = (None, m)"
  | (connected) h where "\<not> canReuse m cfg" "snd (connect ext cfg) = Inr h"
      "ensureSession ext cfg m =
        (None, (snd (close True ext m))
          \<lparr> miniProgram := Some h, config := Some cfg,
            journal := journal (snd (close True ext m))
              @ [LogInfo establishing, fst (connect ext cfg), OnConsole h, OnException h] \<rparr>)"
  | (failed) error where "\<not> canReuse m cfg" "snd (connect ext cfg) = Inl error"
      "ensureSession ext cfg m =
        (Some (UserError (failedTo cfg (messageOf error))),
         (snd (close True ext m))
          \<lparr> miniProgram := None, config := None,
            journal := journal (snd (close True ext m))
              @ [LogInfo establishing, fst (connect ext cfg)] \<rparr>)"
proof (cases "canReuse m cfg")
  case True
  then show thesis using ensureSession_reuse reuse by blast
next
  case False
  show thesis
  proof (cases "snd (connect ext cfg)")
    case (Inl error)
    with False show thesis using ensureSession_failed failed by blast
  next
    case (Inr h)
    with False show thesis using ensureSession_connected connected by blast
  qed
qed

lemma ensureSession_active:
  assumes "ensureSession ext cfg m = (None, m')"
  shows "miniProgram m' \<noteq> None \<and> config m' = Some cfg"
proof (cases rule: ensureSession_cases[where m=m and cfg=cfg and ext=ext])
  case reuse
  with assms show ?thesis by (simp add: canReuse_iff)
next
  case (connected h)
  with assms show ?thesis by auto
next
  case (failed error)
  with assms show ?thesis by simp
qed

lemma ensureSession_error:
  assumes "ensureSession ext cfg m = (Some e, m')"
  shows "miniProgram m' = None \<and> config m' = None"
proof (cases rule: ensureSession_cases[where m=m and cfg=cfg and ext=ext])
  case reuse
  with assms show ?thesis by simp
next
  case (connected h)
  with assms show ?thesis by simp
next
  case (failed error)
  with assms show ?thesis by auto
qed

lemma runHandler_autoClose:
  assumes "autoClose cfg = Some True"
  shows "runHandler ext handler cfg m
           = (outcomeOf (handler (miniProgram m) cfg), snd (close True ext m))"
  using assms close_returns[of True ext m]
  by (cases "close True ext m") (simp add: runHandler_def)

lemma runHandler_keep:
  assumes "autoClose cfg \<noteq> Some True"
  shows "runHandler ext handler cfg m = (outcomeOf (handler (miniProgram m) cfg), m)"
  using assms by (simp add: runHandler_def)

lemma withMiniProgram_resolved:
  assumes "resolveConfig N env overrides (config m) = Inr cfg"
  shows "withMiniProgram N env ext overrides reconnect handler m =
     (case ensureSession ext cfg (afterReconnect ext reconnect m) of
        (Some error, m2) \<Rightarrow> (Inl error, m2)
      | (None, m2) \<Rightarrow> runHandler ext handler cfg m2)"
  using assms close_returns[of True ext m]
  by (cases reconnect; cases "close True ext m")
     (simp_all add: withMiniProgram_def afterReconnect_def)

lemma withMiniProgram_unresolved:
  assumes "resolveConfig N env overrides (config m) = Inl error"
  shows "withMiniProgram N env ext overrides reconnect handler m = (Inl (asUserError error), m)"
  using assms by (simp add: withMiniProgram_def)







lemma projectPath_again:
  assumes "get b = None \<or> truthy (get b)"
  shows "get (over (ifTruthy (get (over b v))) v) = get (over b v)"
proof (cases v)
  case Absent
  with assms show ?thesis by (auto simp: ifTruthy_def)
next
  case (Present x)
  then show ?thesis by simp
qed

lemma inferMode_again:
  assumes "mode g' = mode g" and "wsEndpoint g' = wsEndpoint g"
  shows "inferMode g' (Some (configOf g previous)) = inferMode g previous"
  using assms by (simp add: inferMode_def configOf_fields split: option.splits)

lemma configOf_again:
  assumes e: "connectionOverridesSchema_parse N (envObject env) = Inr envInput"
      and cfg_def: "cfg = configOf (merge (fromPrevious previous) envInput ov) previous"
  shows "configOf (merge (fromPrevious (Some cfg)) envInput ov) (Some cfg) = cfg"
proof (rule connection.equality)
  let ?g = "merge (fromPrevious previous) envInput ov"
  let ?g' = "merge (fromPrevious (Some cfg)) envInput ov"
  have m: "mode (merge b envInput ov) = mode ?g"
    and w: "wsEndpoint (merge b envInput ov) = wsEndpoint ?g" for b
    unfolding merge_fields envInput_keys[OF e] by (rule refl)+
  show "mode (configOf ?g' (Some cfg)) = mode cfg"
    unfolding cfg_def configOf_fields(1) by (rule inferMode_again[OF m w])
  show "cliPath (configOf ?g' (Some cfg)) = cliPath cfg"
    unfolding cfg_def configOf_fields merge_fields envInput_keys[OF e] ..
  show "projectPath (configOf ?g' (Some cfg)) = projectPath cfg"
    unfolding cfg_def configOf_fields merge_fields envInput_keys[OF e]
    by (simp add: configOf_fields merge_fields envInput_keys(3)[OF e]
        projectPath_again[OF fromPrevious_clean(2)])
  show "wsEndpoint (configOf ?g' (Some cfg)) = wsEndpoint cfg"
    unfolding cfg_def configOf_fields merge_fields envInput_keys[OF e] ..
  show "timeout (configOf ?g' (Some cfg)) = timeout cfg"
    unfolding cfg_def configOf_fields merge_fields envInput_keys[OF e] ..
  show "port (configOf ?g' (Some cfg)) = port cfg"
    unfolding cfg_def configOf_fields merge_fields envInput_keys[OF e] ..
  show "account (configOf ?g' (Some cfg)) = account cfg"
    unfolding cfg_def configOf_fields merge_fields envInput_keys[OF e] ..
  show "ticket (configOf ?g' (Some cfg)) = ticket cfg"
    unfolding cfg_def configOf_fields merge_fields envInput_keys[OF e] ..
  show "trustProject (configOf ?g' (Some cfg)) = trustProject cfg"
    unfolding cfg_def configOf_fields merge_fields envInput_keys[OF e] ..
  show "args (configOf ?g' (Some cfg)) = args cfg"
    unfolding cfg_def configOf_fields merge_fields envInput_keys[OF e] ..
  show "cwd (configOf ?g' (Some cfg)) = cwd cfg"
    unfolding cfg_def configOf_fields merge_fields envInput_keys[OF e] ..
  show "autoClose (configOf ?g' (Some cfg)) = autoClose cfg"
    unfolding cfg_def configOf_fields merge_fields envInput_keys[OF e] ..
  show "connection.more (configOf ?g' (Some cfg)) = connection.more cfg"
    by simp
qed

lemma resolveConfig_again:
  assumes "resolveConfig N env overrides previous = Inr cfg"
  shows "resolveConfig N env overrides (Some cfg) = Inr cfg"
proof -
  from assms obtain envInput ov where
    e: "connectionOverridesSchema_parse N (envObject env) = Inr envInput" and
    o: "overrideConfig N overrides = Inr ov" and
    c: "cfg = configOf (merge (fromPrevious previous) envInput ov) previous" and
    v: "validate cfg = Inr cfg"
    by (rule resolveConfig_Inr)
  have "configOf (merge (fromPrevious (Some cfg)) envInput ov) (Some cfg) = cfg"
    by (rule configOf_again[OF e c])
  then show ?thesis
    unfolding resolveConfig_parsed[OF e o] using v by simp
qed

lemma journal_close:
  assumes "miniProgram m = Some h"
  shows "journal (snd (close True ext m))
           = journal m @ [fst (closeCall ext m h), closeLogged (snd (closeCall ext m h)),
                          RemoveAllListeners h]"
  by (simp add: close_Some[OF assms])

lemma first_call:
  assumes r: "resolveConfig N env overrides None = Inr cfg"
      and a: "autoClose cfg \<noteq> Some True"
      and c: "snd (connect ext cfg) = Inr h"
  shows "withMiniProgram N env ext overrides reconnect handler newManager
           = (outcomeOf (handler (Some h) cfg),
              \<lparr> miniProgram = Some h, config = Some cfg, consoleLogs = [],
                journal = [LogInfo establishing, fst (connect ext cfg),
                           OnConsole h, OnException h] \<rparr>)"
proof -
  have r': "resolveConfig N env overrides (config newManager) = Inr cfg"
    using r by (simp add: newManager_def)
  have n: "afterReconnect ext reconnect newManager = newManager"
    by (simp add: afterReconnect_def close_None newManager_def)
  have u: "\<not> canReuse newManager cfg"
    by (simp add: canReuse_iff newManager_def)
  show ?thesis
    unfolding withMiniProgram_resolved[OF r'] n ensureSession_connected[OF u c]
    by (simp add: runHandler_keep[OF a] close_None newManager_def)
qed

lemma reused_call:
  assumes r: "resolveConfig N env overrides (Some cfg) = Inr cfg"
      and a: "autoClose cfg \<noteq> Some True"
      and h: "miniProgram m = Some h" and c: "config m = Some cfg"
  shows "withMiniProgram N env ext overrides False handler m
           = (outcomeOf (handler (Some h) cfg), m)"
proof -
  have r': "resolveConfig N env overrides (config m) = Inr cfg"
    using r c by simp
  have n: "afterReconnect ext False m = m"
    by (simp add: afterReconnect_def)
  have u: "canReuse m cfg"
    using h c by (simp add: canReuse_iff)
  show ?thesis
    unfolding withMiniProgram_resolved[OF r'] n ensureSession_reuse[OF u]
    by (simp add: runHandler_keep[OF a] h)
qed

lemma changed_call:
  assumes h: "miniProgram m = Some h0" and s: "config m = Some stored"
      and r: "resolveConfig N env overrides (Some stored) = Inr cfg"
      and d: "cfg \<noteq> stored"
  shows "\<exists>rest. journal (snd (withMiniProgram N env ext overrides reconnect handler m))
           = journal m @ [fst (closeCall ext m h0), closeLogged (snd (closeCall ext m h0)),
              RemoveAllListeners h0, LogInfo establishing, fst (connect ext cfg)] @ rest
           \<and> filter isConnectCall rest = []"
proof -
  let ?m0 = "afterReconnect ext reconnect m"
  let ?closed = "snd (close True ext m)"
  have r': "resolveConfig N env overrides (config m) = Inr cfg"
    using r s by simp
  have u: "\<not> canReuse ?m0 cfg"
    using s d by (cases reconnect) (simp_all add: afterReconnect_def canReuse_iff close_miniProgram)
  have cl: "snd (close True ext ?m0) = ?closed"
    by (cases reconnect) (simp_all add: afterReconnect_def close_twice)
  have j: "journal ?closed = journal m @ [fst (closeCall ext m h0),
             closeLogged (snd (closeCall ext m h0)), RemoveAllListeners h0]"
    by (rule journal_close[OF h])
  show ?thesis
  proof (cases "snd (connect ext cfg)")
    case (Inl error)
    show ?thesis
      unfolding withMiniProgram_resolved[OF r'] ensureSession_failed[OF u Inl] cl
      by (simp add: j)
  next
    case (Inr h)
    show ?thesis
    proof (cases "autoClose cfg = Some True")
      case True
      let ?mc = "?closed\<lparr> miniProgram := Some h, config := Some cfg,
          journal := journal ?closed
            @ [LogInfo establishing, fst (connect ext cfg), OnConsole h, OnException h] \<rparr>"
      have hm: "miniProgram ?mc = Some h" by simp
      have jc: "journal (snd (close True ext ?mc))
                  = journal ?mc @ [fst (closeCall ext ?mc h),
                      closeLogged (snd (closeCall ext ?mc h)), RemoveAllListeners h]"
        by (rule journal_close[OF hm])
      have fin: "snd (withMiniProgram N env ext overrides reconnect handler m)
                   = snd (close True ext ?mc)"
        unfolding withMiniProgram_resolved[OF r'] ensureSession_connected[OF u Inr] cl
        by (simp add: runHandler_autoClose[OF True])
      have "journal (snd (withMiniProgram N env ext overrides reconnect handler m))
              = journal m @ [fst (closeCall ext m h0), closeLogged (snd (closeCall ext m h0)),
                  RemoveAllListeners h0, LogInfo establishing, fst (connect ext cfg)]
                @ [OnConsole h, OnException h, fst (closeCall ext ?mc h),
                   closeLogged (snd (closeCall ext ?mc h)), RemoveAllListeners h]"
        unfolding fin jc by (simp add: j)
      then show ?thesis
        by (simp add: isConnectCall_closeCall isConnectCall_closeLogged)
    next
      case False
      show ?thesis
        unfolding withMiniProgram_resolved[OF r'] ensureSession_connected[OF u Inr] cl
        by (simp add: j runHandler_keep[OF False])
    qed
  qed
qed

lemma new_session_connectCalls:
  assumes r: "resolveConfig N env overrides (config m) = Inr cfg"
      and u: "\<not> canReuse (afterReconnect ext reconnect m) cfg"
  shows "connectCalls (snd (withMiniProgram N env ext overrides reconnect handler m))
           = connectCalls m + 1"
proof -
  let ?m0 = "afterReconnect ext reconnect m"
  have c0: "connectCalls (snd (close True ext ?m0)) = connectCalls m"
    by (cases reconnect) (simp_all add: afterReconnect_def close_connectCalls)
  show ?thesis
  proof (cases "snd (connect ext cfg)")
    case (Inl error)
    show ?thesis
      unfolding withMiniProgram_resolved[OF r] ensureSession_failed[OF u Inl]
      using c0 by (simp add: connectCalls_def isConnectCall_connect)
  next
    case (Inr h)
    show ?thesis
    proof (cases "autoClose cfg = Some True")
      case True
      let ?mc = "(snd (close True ext ?m0))\<lparr> miniProgram := Some h, config := Some cfg,
          journal := journal (snd (close True ext ?m0))
            @ [LogInfo establishing, fst (connect ext cfg), OnConsole h, OnException h] \<rparr>"
      have fin: "snd (withMiniProgram N env ext overrides reconnect handler m)
                   = snd (close True ext ?mc)"
        unfolding withMiniProgram_resolved[OF r] ensureSession_connected[OF u Inr]
        by (simp add: runHandler_autoClose[OF True])
      have "connectCalls (snd (close True ext ?mc)) = connectCalls ?mc"
        by (rule close_connectCalls)
      also have "\<dots> = connectCalls (snd (close True ext ?m0)) + 1"
        by (simp add: connectCalls_def isConnectCall_connect)
      finally show ?thesis unfolding fin c0 .
    next
      case False
      show ?thesis
        unfolding withMiniProgram_resolved[OF r] ensureSession_connected[OF u Inr]
        using c0 by (simp add: runHandler_keep[OF False] connectCalls_def isConnectCall_connect)
    qed
  qed
qed

lemma autoClose_idle:
  assumes r: "resolveConfig N env overrides (config m) = Inr cfg"
      and a: "autoClose cfg = Some True"
  shows "miniProgram (snd (withMiniProgram N env ext overrides reconnect handler m)) = None"
    and "config (snd (withMiniProgram N env ext overrides reconnect handler m)) = None"
proof -
  obtain failed m2 where s: "ensureSession ext cfg (afterReconnect ext reconnect m) = (failed, m2)"
    by (cases "ensureSession ext cfg (afterReconnect ext reconnect m)")
  have "miniProgram (snd (withMiniProgram N env ext overrides reconnect handler m)) = None
        \<and> config (snd (withMiniProgram N env ext overrides reconnect handler m)) = None"
  proof (cases failed)
    case None
    with s have s': "ensureSession ext cfg (afterReconnect ext reconnect m) = (None, m2)"
      by simp
    from ensureSession_active[OF s'] obtain h where h: "miniProgram m2 = Some h"
      by auto
    show ?thesis
      unfolding withMiniProgram_resolved[OF r] s'
      by (simp add: runHandler_autoClose[OF a] close_Some[OF h])
  next
    case (Some error)
    with s have s': "ensureSession ext cfg (afterReconnect ext reconnect m) = (Some error, m2)"
      by simp
    show ?thesis
      unfolding withMiniProgram_resolved[OF r] s'
      using ensureSession_error[OF s'] by simp
  qed
  then show "miniProgram (snd (withMiniProgram N env ext overrides reconnect handler m)) = None"
    and "config (snd (withMiniProgram N env ext overrides reconnect handler m)) = None"
    by simp_all
qed

lemma failed_call_idle:
  assumes r: "resolveConfig N env overrides (config m) = Inr cfg"
      and u: "\<not> canReuse (afterReconnect ext reconnect m) cfg"
      and f: "snd (connect ext cfg) = Inl error"
  shows "miniProgram (snd (withMiniProgram N env ext overrides reconnect handler m)) = None"
    and "config (snd (withMiniProgram N env ext overrides reconnect handler m)) = None"
  unfolding withMiniProgram_resolved[OF r] ensureSession_failed[OF u f] by simp_all

text \<open>
  C4. From a new manager, when the overrides resolve to a configuration without
  \<^verbatim>\<open>autoClose\<close> true and the connect or launch of the first call succeeds, two
  calls of \<^verbatim>\<open>withMiniProgram\<close> in a row with the same overrides and environment,
  the second without \<^verbatim>\<open>reconnect\<close>, reach \<^verbatim>\<open>automator.connect\<close> or
  \<^verbatim>\<open>automator.launch\<close> exactly once: the second call resolves to the stored
  configuration and reuses the handle. \<^verbatim>\<open>isSameConfig\<close> is equality of all fields,
  the args in order. Whenever the resolved configuration differs from the stored one,
  the call closes the session (the underlying call, the log line, the listeners
  removed) and then connects or launches once.
\<close>

theorem reuse_of_session:
  "(resolveConfig N env overrides None = Inr cfg \<and> autoClose cfg \<noteq> Some True
      \<and> snd (connect ext1 cfg) = Inr h \<longrightarrow>
      (let first = withMiniProgram N env ext1 overrides reconnect handler1 newManager;
           second = withMiniProgram N env ext2 overrides False handler2 (snd first)
       in connectCalls (snd first) = 1 \<and> connectCalls (snd second) = 1
          \<and> snd second = snd first
          \<and> miniProgram (snd second) = Some h \<and> config (snd second) = Some cfg
          \<and> fst second = outcomeOf (handler2 (Some h) cfg)))
   \<and> (isSameConfig a b \<longleftrightarrow> a = b)
   \<and> (miniProgram m = Some h0 \<and> config m = Some stored
        \<and> resolveConfig N env overrides' (Some stored) = Inr cfg' \<and> cfg' \<noteq> stored \<longrightarrow>
        (let m' = snd (withMiniProgram N env ext overrides' reconnect' handler m)
         in connectCalls m' = connectCalls m + 1
            \<and> (\<exists>rest. callsSince m m'
                 = [fst (closeCall ext m h0), closeLogged (snd (closeCall ext m h0)),
                    RemoveAllListeners h0, LogInfo establishing, fst (connect ext cfg')]
                   @ rest)))"
proof (intro conjI impI)
  assume "resolveConfig N env overrides None = Inr cfg \<and> autoClose cfg \<noteq> Some True
      \<and> snd (connect ext1 cfg) = Inr h"
  then have r: "resolveConfig N env overrides None = Inr cfg"
    and a: "autoClose cfg \<noteq> Some True" and c: "snd (connect ext1 cfg) = Inr h"
    by simp_all
  define m1 where "m1 = \<lparr> miniProgram = Some h, config = Some cfg, consoleLogs = [],
      journal = [LogInfo establishing, fst (connect ext1 cfg), OnConsole h, OnException h] \<rparr>"
  have f: "withMiniProgram N env ext1 overrides reconnect handler1 newManager
             = (outcomeOf (handler1 (Some h) cfg), m1)"
    unfolding m1_def by (rule first_call[OF r a c])
  have s: "withMiniProgram N env ext2 overrides False handler2 m1
             = (outcomeOf (handler2 (Some h) cfg), m1)"
    by (rule reused_call[OF resolveConfig_again[OF r] a]) (simp_all add: m1_def)
  have n: "connectCalls m1 = 1"
    by (simp add: m1_def connectCalls_def isConnectCall_connect)
  show "let first = withMiniProgram N env ext1 overrides reconnect handler1 newManager;
            second = withMiniProgram N env ext2 overrides False handler2 (snd first)
        in connectCalls (snd first) = 1 \<and> connectCalls (snd second) = 1
           \<and> snd second = snd first
           \<and> miniProgram (snd second) = Some h \<and> config (snd second) = Some cfg
           \<and> fst second = outcomeOf (handler2 (Some h) cfg)"
    unfolding Let_def f snd_conv s fst_conv using n by (simp add: m1_def)
next
  show "isSameConfig a b \<longleftrightarrow> a = b" by (rule isSameConfig_iff)
next
  assume "miniProgram m = Some h0 \<and> config m = Some stored
        \<and> resolveConfig N env overrides' (Some stored) = Inr cfg' \<and> cfg' \<noteq> stored"
  then have h: "miniProgram m = Some h0" and s: "config m = Some stored"
    and r: "resolveConfig N env overrides' (Some stored) = Inr cfg'" and d: "cfg' \<noteq> stored"
    by simp_all
  let ?m' = "snd (withMiniProgram N env ext overrides' reconnect' handler m)"
  from changed_call[OF h s r d, of ext reconnect' handler]
  obtain rest where j: "journal ?m'
      = journal m @ [fst (closeCall ext m h0), closeLogged (snd (closeCall ext m h0)),
          RemoveAllListeners h0, LogInfo establishing, fst (connect ext cfg')] @ rest"
    and nc: "filter isConnectCall rest = []"
    by blast
  have "connectCalls ?m' = connectCalls m + 1"
    unfolding connectCalls_def j
    by (simp add: nc isConnectCall_closeCall isConnectCall_closeLogged isConnectCall_connect)
  moreover have "\<exists>rest. callsSince m ?m'
                 = [fst (closeCall ext m h0), closeLogged (snd (closeCall ext m h0)),
                    RemoveAllListeners h0, LogInfo establishing, fst (connect ext cfg')]
                   @ rest"
    unfolding callsSince_def j by simp
  ultimately show "let m' = ?m'
         in connectCalls m' = connectCalls m + 1
            \<and> (\<exists>rest. callsSince m m'
                 = [fst (closeCall ext m h0), closeLogged (snd (closeCall ext m h0)),
                    RemoveAllListeners h0, LogInfo establishing, fst (connect ext cfg')]
                   @ rest)"
    unfolding Let_def by (rule conjI)
qed

lemma parse_projectOnly:
  "connectionOverridesSchema_parse N projectOnly
     = Inr (emptyOverrides\<lparr> projectPath := Present (Some ''/p'') \<rparr>)"
  "connectionOverridesSchema_parse N projectLaunch
     = Inr (emptyOverrides\<lparr> mode := Present (Some Launch), projectPath := Present (Some ''/p'') \<rparr>)"
  "connectionOverridesSchema_parse N projectAutoClose
     = Inr (emptyOverrides\<lparr> projectPath := Present (Some ''/p''),
              autoClose := Present (Some True) \<rparr>)"
  by (simp_all add: connectionOverridesSchema_parse_def projectOnly_def projectLaunch_def
      projectAutoClose_def noKeys_def emptyOverrides_def numberSchema_def booleanSchema_def
      trim_def isWhiteSpace_def)

lemma resolve_project:
  "resolveConfig N unsetEnv (Some projectOnly) None = Inr launchedConfig"
  "resolveConfig N unsetEnv (Some projectLaunch) (Some launchedConfig) = Inr launchedConfig"
  "resolveConfig N unsetEnv (Some projectAutoClose) None = Inr launchedAutoClose"
  "resolveConfig N unsetEnv (Some projectAutoClose) (Some launchedConfig) = Inr launchedAutoClose"
  by (simp_all add: resolveConfig_def parse_unsetEnv parse_projectOnly
      validate_def configOf_def merge_def spread_def emptyOverrides_def inferMode_def
      launchedConfig_def launchedAutoClose_def unsetEnvInput_def
      ifTruthy_def ifDefined_def ifLength_def)

lemma connect_succeeding:
  "snd (connect succeeding launchedConfig) = Inr 1"
  "fst (connect succeeding launchedConfig) = AutomatorLaunch launchedConfig"
  by (simp_all add: connect_def succeeding_def launchedConfig_def)

theorem reuse_of_session_witness:
  "resolveConfig noNumber unsetEnv (Some projectOnly) None = Inr launchedConfig
   \<and> autoClose launchedConfig \<noteq> Some True
   \<and> snd (connect succeeding launchedConfig) = Inr 1
   \<and> connectCalls (snd (withMiniProgram noNumber unsetEnv succeeding (Some projectOnly) False
        handlerThrows
        (snd (withMiniProgram noNumber unsetEnv succeeding (Some projectOnly) False handlerOk
          newManager)))) = 1
   \<and> miniProgram launchedSession = Some 1 \<and> config launchedSession = Some launchedConfig
   \<and> resolveConfig noNumber unsetEnv (Some projectAutoClose) (Some launchedConfig)
        = Inr launchedAutoClose
   \<and> launchedAutoClose \<noteq> launchedConfig
   \<and> connectCalls (snd (withMiniProgram noNumber unsetEnv succeeding (Some projectAutoClose)
        False handlerOk launchedSession)) = connectCalls launchedSession + 1"
proof -
  have r: "resolveConfig noNumber unsetEnv (Some projectOnly) None = Inr launchedConfig"
    by (rule resolve_project)
  have a: "autoClose launchedConfig \<noteq> Some True"
    by (simp add: launchedConfig_def)
  have c: "snd (connect succeeding launchedConfig) = Inr 1"
    by (rule connect_succeeding)
  have h: "miniProgram launchedSession = Some 1 \<and> config launchedSession = Some launchedConfig"
    by (simp add: launchedSession_def)
  have r': "resolveConfig noNumber unsetEnv (Some projectAutoClose) (Some launchedConfig)
        = Inr launchedAutoClose"
    by (rule resolve_project)
  have d: "launchedAutoClose \<noteq> launchedConfig"
    by (simp add: launchedAutoClose_def launchedConfig_def)
  from reuse_of_session[of noNumber unsetEnv "Some projectOnly" launchedConfig succeeding 1
      False handlerOk succeeding handlerThrows launchedConfig launchedConfig
      launchedSession 1 launchedConfig "Some projectAutoClose" launchedAutoClose
      succeeding False handlerOk]
    r a c h r' d
  show ?thesis
    by (simp add: Let_def)
qed

text \<open>
  With \<^verbatim>\<open>autoClose\<close> among the overrides, two calls with the same overrides
  launch twice; an override that only spells out the mode the first call inferred
  changes a field of the overrides, yet the session is reused; when the launch of the
  first call fails, or the second call asks for \<^verbatim>\<open>reconnect\<close>, the same
  overrides reach the automator twice.
\<close>

theorem reuse_of_session_counterexample:
  "connectCalls (snd (withMiniProgram noNumber unsetEnv succeeding (Some projectAutoClose) False
        handlerOk
        (snd (withMiniProgram noNumber unsetEnv succeeding (Some projectAutoClose) False
          handlerOk newManager)))) = 2
   \<and> projectLaunch \<noteq> projectOnly
   \<and> connectCalls (snd (withMiniProgram noNumber unsetEnv succeeding (Some projectLaunch) False
        handlerOk
        (snd (withMiniProgram noNumber unsetEnv succeeding (Some projectOnly) False
          handlerOk newManager)))) = 1
   \<and> connectCalls (snd (withMiniProgram noNumber unsetEnv refusing (Some projectOnly) False
        handlerOk
        (snd (withMiniProgram noNumber unsetEnv refusing (Some projectOnly) False
          handlerOk newManager)))) = 2
   \<and> connectCalls (snd (withMiniProgram noNumber unsetEnv succeeding (Some projectOnly) True
        handlerOk
        (snd (withMiniProgram noNumber unsetEnv succeeding (Some projectOnly) False
          handlerOk newManager)))) = 2"
proof -
  let ?first = "snd (withMiniProgram noNumber unsetEnv succeeding (Some projectAutoClose) False
          handlerOk newManager)"
  have a: "autoClose launchedAutoClose = Some True"
    by (simp add: launchedAutoClose_def)
  have r0: "resolveConfig noNumber unsetEnv (Some projectAutoClose) (config newManager)
              = Inr launchedAutoClose"
    by (simp add: newManager_def resolve_project)
  have u0: "\<not> canReuse (afterReconnect ext False newManager) cfg" for ext cfg
    by (simp add: canReuse_iff afterReconnect_def newManager_def)
  have n1: "connectCalls ?first = 1"
    using new_session_connectCalls[OF r0 u0[of succeeding launchedAutoClose], where handler=handlerOk]
    by (simp add: connectCalls_def newManager_def)
  have idle: "miniProgram ?first = None" "config ?first = None"
    by (rule autoClose_idle[OF r0 a])+
  have r1: "resolveConfig noNumber unsetEnv (Some projectAutoClose) (config ?first)
              = Inr launchedAutoClose"
    unfolding idle by (rule resolve_project)
  have u1: "\<not> canReuse (afterReconnect succeeding False ?first) launchedAutoClose"
    by (simp add: canReuse_iff afterReconnect_def idle)
  have two: "connectCalls (snd (withMiniProgram noNumber unsetEnv succeeding
        (Some projectAutoClose) False handlerOk ?first)) = 2"
    using new_session_connectCalls[OF r1 u1, where handler=handlerOk] n1 by simp
  have differ: "projectLaunch \<noteq> projectOnly"
    by (simp add: projectLaunch_def projectOnly_def noKeys_def)
  have nc: "autoClose launchedConfig \<noteq> Some True"
    by (simp add: launchedConfig_def)
  have f: "withMiniProgram noNumber unsetEnv succeeding (Some projectOnly) False handlerOk
             newManager
           = (outcomeOf (handlerOk (Some 1) launchedConfig), launchedSessionLogged)"
    unfolding first_call[OF resolve_project(1) nc connect_succeeding(1)]
    by (simp add: launchedSessionLogged_def launchedSession_def connect_succeeding)
  have s: "withMiniProgram noNumber unsetEnv succeeding (Some projectLaunch) False handlerOk
             launchedSessionLogged
           = (outcomeOf (handlerOk (Some 1) launchedConfig), launchedSessionLogged)"
    by (rule reused_call[OF resolve_project(2) nc])
       (simp_all add: launchedSessionLogged_def launchedSession_def)
  have logged: "connectCalls launchedSessionLogged = 1"
    by (simp add: connectCalls_def launchedSessionLogged_def launchedSession_def)
  have one: "connectCalls (snd (withMiniProgram noNumber unsetEnv succeeding (Some projectLaunch)
        False handlerOk
        (snd (withMiniProgram noNumber unsetEnv succeeding (Some projectOnly) False
          handlerOk newManager)))) = 1"
    unfolding f snd_conv s by (rule logged)
  let ?refused = "snd (withMiniProgram noNumber unsetEnv refusing (Some projectOnly) False
          handlerOk newManager)"
  have r2: "resolveConfig noNumber unsetEnv (Some projectOnly) (config newManager)
              = Inr launchedConfig"
    by (simp add: newManager_def resolve_project)
  have c2: "snd (connect refusing launchedConfig) = Inl (OtherValue ''spawn failed'')"
    by (simp add: connect_def refusing_def launchedConfig_def)
  have n2: "connectCalls ?refused = 1"
    using new_session_connectCalls[OF r2 u0[of refusing launchedConfig], where handler=handlerOk]
    by (simp add: connectCalls_def newManager_def)
  have idle2: "miniProgram ?refused = None" "config ?refused = None"
    by (rule failed_call_idle[OF r2 u0[of refusing launchedConfig] c2])+
  have r3: "resolveConfig noNumber unsetEnv (Some projectOnly) (config ?refused)
              = Inr launchedConfig"
    unfolding idle2 by (rule resolve_project)
  have u3: "\<not> canReuse (afterReconnect refusing False ?refused) launchedConfig"
    by (simp add: canReuse_iff afterReconnect_def idle2)
  have refused: "connectCalls (snd (withMiniProgram noNumber unsetEnv refusing
        (Some projectOnly) False handlerOk ?refused)) = 2"
    using new_session_connectCalls[OF r3 u3, where handler=handlerOk] n2 by simp
  have r4: "resolveConfig noNumber unsetEnv (Some projectOnly) (config launchedSessionLogged)
              = Inr launchedConfig"
    using resolveConfig_again[OF resolve_project(1)]
    by (simp add: launchedSessionLogged_def launchedSession_def)
  have u4: "\<not> canReuse (afterReconnect succeeding True launchedSessionLogged) launchedConfig"
    by (simp add: canReuse_iff afterReconnect_def close_miniProgram)
  have reconnected: "connectCalls (snd (withMiniProgram noNumber unsetEnv succeeding
        (Some projectOnly) True handlerOk
        (snd (withMiniProgram noNumber unsetEnv succeeding (Some projectOnly) False
          handlerOk newManager)))) = 2"
    unfolding f snd_conv
    using new_session_connectCalls[OF r4 u4, where handler=handlerOk] logged by simp
  from two differ one refused reconnected show ?thesis by blast
qed

section \<open>Invariants of the reachable states\<close>

text \<open>
  Every state the manager reaches from \<^verbatim>\<open>new WeappAutomatorManager()\<close> by calls
  of \<^verbatim>\<open>withMiniProgram\<close> and \<^verbatim>\<open>close\<close> and by observed events has its handle
  and configuration paired and its buffer within the capacity; \<^verbatim>\<open>withMiniProgram\<close>
  leaves the buffer as it is.
\<close>

lemma paired_newManager: "paired newManager"
  by (simp add: paired_def newManager_def)

lemma paired_close: "paired m \<Longrightarrow> paired (snd (close logger ext m))"
  by (simp add: paired_def close_miniProgram close_config)

lemma paired_ensureSession: "paired m \<Longrightarrow> paired (snd (ensureSession ext cfg m))"
proof (cases rule: ensureSession_cases[where m=m and cfg=cfg and ext=ext])
  case reuse
  assume "paired m"
  with reuse show ?thesis by simp
next
  case (connected h)
  then show ?thesis by (simp add: paired_def)
next
  case (failed error)
  then show ?thesis by (simp add: paired_def)
qed

lemma paired_runHandler: "paired m \<Longrightarrow> paired (snd (runHandler ext handler cfg m))"
  by (cases "autoClose cfg = Some True")
     (simp_all add: runHandler_autoClose runHandler_keep paired_close)

lemma paired_withMiniProgram:
  assumes "paired m"
  shows "paired (snd (withMiniProgram N env ext overrides reconnect handler m))"
proof (cases "resolveConfig N env overrides (config m)")
  case (Inl error)
  with assms show ?thesis by (simp add: withMiniProgram_unresolved)
next
  case (Inr cfg)
  have p0: "paired (afterReconnect ext reconnect m)"
    using assms by (simp add: afterReconnect_def paired_close)
  obtain failed m2 where s: "ensureSession ext cfg (afterReconnect ext reconnect m) = (failed, m2)"
    by (cases "ensureSession ext cfg (afterReconnect ext reconnect m)")
  from paired_ensureSession[OF p0, of ext cfg] s have p2: "paired m2" by simp
  show ?thesis
    unfolding withMiniProgram_resolved[OF Inr] s
    using p2 by (cases failed) (simp_all add: paired_runHandler)
qed

lemma paired_observe: "paired m \<Longrightarrow> paired (observe str m e)"
  by (cases e) (simp_all add: paired_def onConsole_def onException_def record_call_def)

lemma consoleLogs_withMiniProgram:
  "consoleLogs (snd (withMiniProgram N env ext overrides reconnect handler m)) = consoleLogs m"
proof (cases "resolveConfig N env overrides (config m)")
  case (Inl error)
  then show ?thesis by (simp add: withMiniProgram_unresolved)
next
  case (Inr cfg)
  have l0: "consoleLogs (afterReconnect ext reconnect m) = consoleLogs m"
    by (simp add: afterReconnect_def close_consoleLogs)
  obtain failed m2 where s: "ensureSession ext cfg (afterReconnect ext reconnect m) = (failed, m2)"
    by (cases "ensureSession ext cfg (afterReconnect ext reconnect m)")
  have l2: "consoleLogs m2 = consoleLogs m"
  proof (cases rule: ensureSession_cases[where m="afterReconnect ext reconnect m"
        and cfg=cfg and ext=ext])
    case reuse
    with s l0 show ?thesis by simp
  next
    case (connected h)
    with s l0 show ?thesis by (auto simp: close_consoleLogs)
  next
    case (failed error)
    with s l0 show ?thesis by (auto simp: close_consoleLogs)
  qed
  show ?thesis
    unfolding withMiniProgram_resolved[OF Inr] s
    using l2
    by (cases failed; cases "autoClose cfg = Some True")
       (simp_all add: runHandler_autoClose runHandler_keep close_consoleLogs)
qed

lemma bounded_observe:
  "length (consoleLogs m) \<le> maxLogs \<Longrightarrow> length (consoleLogs (observe str m e)) \<le> maxLogs"
  by (simp add: observe_logs pushLog_drop)

end
